theory Spec2Isabelle
  imports Complex_Main
begin

section \<open>Data model of the interest-rate optimiser (run.py)\<close>

text \<open>
  Amounts and rates are Python floats in the source. They are modelled as exact reals:
  rounding, infinities and NaN are outside this development. A Python dictionary keeps
  its insertion order, and the source iterates over dictionaries, so a dictionary is an
  association list with distinct keys, in insertion order.
\<close>

datatype py_error = IndexError | KeyError | ZeroDivisionError | SolverError

text \<open>
  Dictionary access: \<open>d[k]\<close> raises KeyError on a missing key; \<open>d[k] = v\<close> replaces
  the value of a present key in place and appends a new key at the end.
\<close>

fun dict_get :: "(string \<times> 'v) list \<Rightarrow> string \<Rightarrow> py_error + 'v" where
  "dict_get [] k = Inl KeyError"
| "dict_get ((k', v) # d) k = (if k' = k then Inr v else dict_get d k)"

fun dict_set :: "(string \<times> 'v) list \<Rightarrow> string \<Rightarrow> 'v \<Rightarrow> (string \<times> 'v) list" where
  "dict_set [] k v = [(k, v)]"
| "dict_set ((k', v') # d) k v =
     (if k' = k then (k, v) # d else (k', v') # dict_set d k v)"

text \<open>Float division \<open>a / b\<close> of Python operands: a zero divisor raises.\<close>

definition py_div :: "real \<Rightarrow> real \<Rightarrow> py_error + real" where
  "py_div a b = (if b = 0 then Inl ZeroDivisionError else Inr (a / b))"

text \<open>One bracket of an account: \<open>{'rate': r, 'amount': a}\<close>.\<close>

record tier =
  rate :: real
  amount :: real

text \<open>One row of a breakdown, as built in lines 28-33 and 106-111.\<close>

record breakdown_entry =
  amount_in_tier :: real
  tier_rate :: real
  tier_interest :: real
  monthly_interest :: real

text \<open>The dictionary returned by \<open>calculate_bank_interest\<close>.\<close>

record interest_calc =
  total_interest :: real
  breakdown :: "breakdown_entry list"

section \<open>calculate\_bank\_interest (lines 6-41)\<close>

text \<open>
  The \<open>for\<close> loop of lines 18-36, with its three local variables as arguments. The
  \<open>break\<close> of line 22 leaves the loop with the values accumulated so far.
\<close>

fun interest_loop :: "tier list \<Rightarrow> real \<Rightarrow> real \<Rightarrow> breakdown_entry list \<Rightarrow> interest_calc" where
  "interest_loop [] tot remaining_amount bd =
     \<lparr>total_interest = tot, breakdown = bd\<rparr>"
| "interest_loop (t # ts) tot remaining_amount bd =
     (let amount_in = min remaining_amount (amount t) in
      if amount_in \<le> 0 then \<lparr>total_interest = tot, breakdown = bd\<rparr>
      else
        let t_interest = amount_in * rate t;
            monthly = t_interest / 12
        in interest_loop ts (tot + t_interest) (remaining_amount - amount_in)
             (bd @ [\<lparr>amount_in_tier = amount_in, tier_rate = rate t,
                     tier_interest = t_interest, monthly_interest = monthly\<rparr>]))"

definition calculate_bank_interest :: "real \<Rightarrow> tier list \<Rightarrow> interest_calc" where
  "calculate_bank_interest deposit_amount bank_tiers =
     (if deposit_amount \<le> 0 then \<lparr>total_interest = 0, breakdown = []\<rparr>
      else interest_loop bank_tiers 0 deposit_amount [])"


section \<open>Accounts, allocations and results\<close>

text \<open>
  The value of one account in \<open>banks_data\<close>. The key \<open>other_requirements\<close> is read by
  the presentation code only and is left out.
\<close>

record bank_info =
  tiers :: "tier list"
  requires_salary :: bool

text \<open>An element of \<open>all_tiers\<close> (lines 76-80): a tier with the name of its account.\<close>

record flat_tier = tier +
  bank_name :: string

text \<open>The value of one account in \<open>allocations\<close> (lines 95-100 and 158-163).\<close>

record allocation =
  deposit :: real
  annual_interest :: real
  alloc_monthly_interest :: real
  alloc_breakdown :: "breakdown_entry list"

text \<open>
  The result dictionary. The key \<open>chosen_salary_bank\<close> is absent (\<open>None\<close>) until
  \<open>optimize_with_salary_constraint\<close> sets it to Python's \<open>None\<close> (\<open>Some None\<close>) or
  to an account name.
\<close>

record opt_result =
  allocations :: "(string \<times> allocation) list"
  total_annual_interest :: real
  total_monthly_interest :: real
  effective_rate :: real
  chosen_salary_bank :: "string option option"

section \<open>create\_optimization\_problem (lines 43-69)\<close>

record lp_problem =
  c :: "real list"
  A_eq :: "real list list"
  b_eq :: "real list"
  bounds :: "(real \<times> real) list"
  bank_names :: "string list"

text \<open>
  The loop of lines 52-57 with the three lists it appends to. \<open>tiers[0]\<close> raises
  IndexError on an account without tiers.
\<close>

fun problem_loop ::
  "(string \<times> tier list) list \<Rightarrow> real \<Rightarrow> real list \<Rightarrow> (real \<times> real) list \<Rightarrow> string list \<Rightarrow>
   py_error + (real list \<times> (real \<times> real) list \<times> string list)" where
  "problem_loop [] total_investment cs bs ns = Inr (cs, bs, ns)"
| "problem_loop ((name, ts) # rest) total_investment cs bs ns =
     (let max_deposit = sum_list (map amount ts) in
      case ts of
        [] \<Rightarrow> Inl IndexError
      | t0 # _ \<Rightarrow>
          let first_tier_rate = - rate t0 in
          problem_loop rest total_investment (cs @ [first_tier_rate])
            (bs @ [(0, min max_deposit total_investment)]) (ns @ [name]))"

definition create_optimization_problem ::
  "(string \<times> tier list) list \<Rightarrow> real \<Rightarrow> py_error + lp_problem" where
  "create_optimization_problem banks_data total_investment =
     (let num_banks = length banks_data in
      case problem_loop banks_data total_investment [] [] [] of
        Inl e \<Rightarrow> Inl e
      | Inr (cs, bs, ns) \<Rightarrow>
          Inr \<lparr>c = cs, A_eq = [replicate num_banks 1], b_eq = [total_investment],
               bounds = bs, bank_names = ns\<rparr>)"

section \<open>simple\_allocation (lines 71-121)\<close>

definition flatten_tiers :: "(string \<times> tier list) list \<Rightarrow> flat_tier list" where
  "flatten_tiers banks_data =
     concat (map (\<lambda>(name, ts).
       map (\<lambda>t. \<lparr>rate = rate t, amount = amount t, bank_name = name\<rparr>) ts) banks_data)"

text \<open>
  The loop of lines 87-114. Lines 94-100 create a zero entry for an account seen for the
  first time; lines 103-111 then update the entry of the account.
\<close>

fun allocation_loop ::
  "flat_tier list \<Rightarrow> real \<Rightarrow> (string \<times> allocation) list \<Rightarrow> real \<Rightarrow>
   (string \<times> allocation) list \<times> real" where
  "allocation_loop [] remaining_investment allocs tot = (allocs, tot)"
| "allocation_loop (t # ts) remaining_investment allocs tot =
     (if remaining_investment \<le> 0 then (allocs, tot)
      else
        let name = bank_name t;
            amount_for_tier = min remaining_investment (amount t);
            a = (case dict_get allocs name of
                   Inl _ \<Rightarrow> \<lparr>deposit = 0, annual_interest = 0,
                              alloc_monthly_interest = 0, alloc_breakdown = []\<rparr>
                 | Inr a0 \<Rightarrow> a0);
            interest = amount_for_tier * rate t;
            a' = \<lparr>deposit = deposit a + amount_for_tier,
                  annual_interest = annual_interest a + interest,
                  alloc_monthly_interest = (annual_interest a + interest) / 12,
                  alloc_breakdown = alloc_breakdown a @
                    [\<lparr>amount_in_tier = amount_for_tier, tier_rate = rate t,
                      tier_interest = interest, monthly_interest = interest / 12\<rparr>]\<rparr>
        in allocation_loop ts (remaining_investment - amount_for_tier)
             (dict_set allocs name a') (tot + interest))"

text \<open>
  \<open>list.sort(key=rate, reverse=True)\<close> is a stable sort by descending rate: equal rates
  keep their order, as \<open>sort_key\<close> on the negated rate does. The division of line
  120 raises ZeroDivisionError when \<open>total_investment\<close> is 0.
\<close>

definition simple_allocation ::
  "(string \<times> tier list) list \<Rightarrow> real \<Rightarrow> py_error + opt_result" where
  "simple_allocation banks_data total_investment =
     (let all_tiers = sort_key (\<lambda>x. - rate x) (flatten_tiers banks_data);
          (allocs, tot) = allocation_loop all_tiers total_investment [] 0
      in case py_div tot total_investment of
           Inl e \<Rightarrow> Inl e
         | Inr q \<Rightarrow>
             Inr \<lparr>allocations = allocs, total_annual_interest = tot,
                  total_monthly_interest = tot / 12, effective_rate = q * 100,
                  chosen_salary_bank = None\<rparr>)"

section \<open>optimize\_deposits (lines 123-174)\<close>

text \<open>
  \<open>linprog\<close> is the external solver. It is a parameter of the model: given the
  objective, the equality constraint and the bounds it returns a solution vector
  (\<open>result.success\<close> true, \<open>result.x\<close> the vector), reports failure, or raises.
\<close>

datatype lp_outcome = Success "real list" | NoSuccess | Raised

type_synonym solver =
  "real list \<Rightarrow> real list list \<Rightarrow> real list \<Rightarrow> (real \<times> real) list \<Rightarrow> lp_outcome"

text \<open>
  The loop of lines 148-164 over \<open>enumerate(problem['bank_names'])\<close>. Reading
  \<open>result.x[i]\<close> beyond the vector raises IndexError.
\<close>

fun result_loop ::
  "nat \<Rightarrow> string list \<Rightarrow> real list \<Rightarrow> (string \<times> tier list) list \<Rightarrow>
   (string \<times> allocation) list \<Rightarrow> real \<Rightarrow> py_error + ((string \<times> allocation) list \<times> real)" where
  "result_loop i [] xs simplified res tot = Inr (res, tot)"
| "result_loop i (name # names) xs simplified res tot =
     (if length xs \<le> i then Inl IndexError
      else
        let deposit_amount = xs ! i in
        if deposit_amount > 1 / 100 then
          (case dict_get simplified name of
             Inl e \<Rightarrow> Inl e
           | Inr ts \<Rightarrow>
               let ic = calculate_bank_interest deposit_amount ts;
                   annual = total_interest ic;
                   monthly = annual / 12
               in result_loop (Suc i) names xs simplified
                    (dict_set res name
                       \<lparr>deposit = deposit_amount, annual_interest = annual,
                        alloc_monthly_interest = monthly, alloc_breakdown = breakdown ic\<rparr>)
                    (tot + annual))
        else result_loop (Suc i) names xs simplified res tot)"

text \<open>
  The body of the \<open>try\<close> statement, lines 134-171. An \<open>Inl\<close> is an exception raised
  inside it. When \<open>total_investment\<close> is 0 and the solution respects its bounds, no
  deposit exceeds 0.01, \<open>total_interest\<close> is still the Python integer 0 and line 170
  raises ZeroDivisionError. A solver that broke its bounds there and returned a deposit
  above 0.01 would make the dividend a numpy float, whose division by zero gives inf
  or nan instead of raising; such a solver is outside the model.
\<close>

definition try_body ::
  "solver \<Rightarrow> lp_problem \<Rightarrow> (string \<times> tier list) list \<Rightarrow> real \<Rightarrow> py_error + opt_result" where
  "try_body linprog problem simplified total_investment =
     (case linprog (c problem) (A_eq problem) (b_eq problem) (bounds problem) of
        Raised \<Rightarrow> Inl SolverError
      | NoSuccess \<Rightarrow> simple_allocation simplified total_investment
      | Success xs \<Rightarrow>
          (case result_loop 0 (bank_names problem) xs simplified [] 0 of
             Inl e \<Rightarrow> Inl e
           | Inr (res, tot) \<Rightarrow>
               (case py_div tot total_investment of
                  Inl e \<Rightarrow> Inl e
                | Inr q \<Rightarrow>
                    Inr \<lparr>allocations = res, total_annual_interest = tot,
                         total_monthly_interest = tot / 12, effective_rate = q * 100,
                         chosen_salary_bank = None\<rparr>)))"

text \<open>
  Line 131 builds the problem before the \<open>try\<close> statement, so an exception of
  \<open>create_optimization_problem\<close> leaves the function. The handler of lines 173-174
  answers every exception of the body with \<open>simple_allocation\<close>.
\<close>

definition optimize_deposits ::
  "solver \<Rightarrow> (string \<times> bank_info) list \<Rightarrow> real \<Rightarrow> py_error + opt_result" where
  "optimize_deposits linprog banks_data total_investment =
     (let simplified = map (\<lambda>(name, info). (name, tiers info)) banks_data in
      case create_optimization_problem simplified total_investment of
        Inl e \<Rightarrow> Inl e
      | Inr problem \<Rightarrow>
          (case try_body linprog problem simplified total_investment of
             Inl _ \<Rightarrow> simple_allocation simplified total_investment
           | Inr r \<Rightarrow> Inr r))"

section \<open>optimize\_with\_salary\_constraint (lines 226-275)\<close>

text \<open>The list comprehension of lines 233-236.\<close>

fun salary_requiring ::
  "(string \<times> bank_info) list \<Rightarrow> string list \<Rightarrow> py_error + string list" where
  "salary_requiring banks_data [] = Inr []"
| "salary_requiring banks_data (name # names) =
     (case dict_get banks_data name of
        Inl e \<Rightarrow> Inl e
      | Inr info \<Rightarrow>
          (case salary_requiring banks_data names of
             Inl e \<Rightarrow> Inl e
           | Inr rest \<Rightarrow> Inr (if requires_salary info then name # rest else rest)))"

text \<open>Lines 254-264: the account set of one candidate, built afresh.\<close>

definition modified_banks_data ::
  "string \<Rightarrow> (string \<times> bank_info) list \<Rightarrow> (string \<times> bank_info) list" where
  "modified_banks_data chosen_bank banks_data =
     map (\<lambda>(name, info).
       if requires_salary info \<and> name \<noteq> chosen_bank
       then (name, \<lparr>tiers = map (\<lambda>t. \<lparr>rate = 0, amount = amount t\<rparr>) (tiers info),
                    requires_salary = True\<rparr>)
       else (name, info)) banks_data"

text \<open>The loop of lines 252-273 with \<open>best_result\<close> and \<open>best_interest\<close>.\<close>

fun candidate_loop ::
  "solver \<Rightarrow> (string \<times> bank_info) list \<Rightarrow> real \<Rightarrow> string list \<Rightarrow>
   opt_result option \<Rightarrow> real \<Rightarrow> py_error + opt_result option" where
  "candidate_loop linprog banks_data total_investment [] best_result best_interest =
     Inr best_result"
| "candidate_loop linprog banks_data total_investment (chosen_bank # rest)
     best_result best_interest =
     (case optimize_deposits linprog (modified_banks_data chosen_bank banks_data)
             total_investment of
        Inl e \<Rightarrow> Inl e
      | Inr r \<Rightarrow>
          if total_annual_interest r > best_interest
          then candidate_loop linprog banks_data total_investment rest
                 (Some (r\<lparr>chosen_salary_bank := Some (Some chosen_bank)\<rparr>))
                 (total_annual_interest r)
          else candidate_loop linprog banks_data total_investment rest
                 best_result best_interest)"

text \<open>The function returns a result dictionary or Python's \<open>None\<close>.\<close>

definition optimize_with_salary_constraint ::
  "solver \<Rightarrow> (string \<times> bank_info) list \<Rightarrow> real \<Rightarrow> py_error + opt_result option" where
  "optimize_with_salary_constraint linprog banks_data total_investment =
     (case optimize_deposits linprog banks_data total_investment of
        Inl e \<Rightarrow> Inl e
      | Inr initial_results \<Rightarrow>
          (case salary_requiring banks_data (map fst (allocations initial_results)) of
             Inl e \<Rightarrow> Inl e
           | Inr salary_requiring_banks \<Rightarrow>
               if length salary_requiring_banks = 0
               then Inr (Some (initial_results\<lparr>chosen_salary_bank := Some None\<rparr>))
               else if length salary_requiring_banks = 1
               then Inr (Some (initial_results
                      \<lparr>chosen_salary_bank := Some (Some (salary_requiring_banks ! 0))\<rparr>))
               else candidate_loop linprog banks_data total_investment
                      salary_requiring_banks None 0))"

section \<open>Splits of an investment and the value of the greedy walk\<close>

text \<open>
  The objective of claim C2, in the claim's words: the investment is split into one
  deposit per account, and each account's interest is what \<open>calculate_bank_interest\<close>
  returns on its deposit.
\<close>

definition split_interest :: "(string \<times> tier list) list \<Rightarrow> real list \<Rightarrow> real" where
  "split_interest banks ds =
     sum_list (map2 (\<lambda>(n, ts) d. total_interest (calculate_bank_interest d ts)) banks ds)"


text \<open>
  The total that the loop of lines 87-114 accumulates on a tier list, without the
  allocation dictionary; \<open>allocation_loop_value\<close> below proves that the loop returns it.
\<close>

fun greedy_value :: "real \<Rightarrow> 'a tier_scheme list \<Rightarrow> real" where
  "greedy_value T [] = 0"
| "greedy_value T (t # ts) =
     (if T \<le> 0 then 0
      else min T (amount t) * rate t + greedy_value (T - min T (amount t)) ts)"


text \<open>
  The amounts that the loop of lines 18-36 places in the tiers of one account, and the
  same for \<open>calculate_bank_interest\<close> with its guard; \<open>placed_interest\<close> below proves
  that the interest returned is the sum of these amounts times their rates.
\<close>

fun tier_fills :: "real \<Rightarrow> tier list \<Rightarrow> real list" where
  "tier_fills d [] = []"
| "tier_fills d (t # ts) =
     (if min d (amount t) \<le> 0 then replicate (Suc (length ts)) 0
      else min d (amount t) # tier_fills (d - min d (amount t)) ts)"


definition placed :: "real \<Rightarrow> tier list \<Rightarrow> real list" where
  "placed d ts = (if d \<le> 0 then replicate (length ts) 0 else tier_fills d ts)"

text \<open>All tiers of all accounts, as in \<open>flatten_tiers\<close>, each with the amount placed in it.\<close>

fun placed_pairs :: "(string \<times> tier list) list \<Rightarrow> real list \<Rightarrow> (flat_tier \<times> real) list" where
  "placed_pairs [] ds = []"
| "placed_pairs (b # bs) [] = []"
| "placed_pairs ((n, ts) # bs) (d # ds) =
     zip (map (\<lambda>t. \<lparr>rate = rate t, amount = amount t, bank_name = n\<rparr>) ts) (placed d ts) @
     placed_pairs bs ds"


text \<open>
  The amounts that the loop of lines 87-114 takes from the tiers of a list, one per
  tier; \<open>greedy_value_fills\<close> below proves that \<open>greedy_value\<close> is the sum of these
  amounts times their rates.
\<close>

fun greedy_fills :: "real \<Rightarrow> 'a tier_scheme list \<Rightarrow> real list" where
  "greedy_fills T [] = []"
| "greedy_fills T (t # ts) =
     (if T \<le> 0 then replicate (Suc (length ts)) 0
      else min T (amount t) # greedy_fills (T - min T (amount t)) ts)"

text \<open>
  The shape of such a list of amounts: each tier holds between 0 and its capacity, and
  a tier that is not full is followed by empty tiers only.
\<close>

fun stair :: "('a tier_scheme \<times> real) list \<Rightarrow> bool" where
  "stair [] = True"
| "stair (p # ps) =
     (0 \<le> snd p \<and> snd p \<le> amount (fst p) \<and>
      (snd p = amount (fst p) \<or> list_all (\<lambda>q. snd q = 0) ps) \<and> stair ps)"

section \<open>Properties of calculate\_bank\_interest\<close>

lemma interest_loop_stop:
  "amount z \<le> 0 \<Longrightarrow>
   interest_loop (pre @ z # post) tot rmn bd = interest_loop pre tot rmn bd"
proof (induction pre arbitrary: tot rmn bd)
  case Nil
  then show ?case by (simp add: Let_def min_def)
next
  case (Cons t pre)
  then show ?case by (simp add: Let_def)
qed

lemma interest_loop_total_shift:
  "total_interest (interest_loop ts tot rmn bd) =
   tot + total_interest (interest_loop ts 0 rmn [])"
proof (induction ts arbitrary: tot rmn bd)
  case Nil
  show ?case by simp
next
  case (Cons t ts)
  show ?case
  proof (cases "min rmn (amount t) \<le> 0")
    case True
    then show ?thesis by (simp add: Let_def)
  next
    case False
    have a: "total_interest (interest_loop (t # ts) tot rmn bd) =
        (tot + min rmn (amount t) * rate t) +
        total_interest (interest_loop ts 0 (rmn - min rmn (amount t)) [])"
      using False Cons.IH [of "tot + min rmn (amount t) * rate t"]
      by (simp add: Let_def)
    have b: "total_interest (interest_loop (t # ts) 0 rmn []) =
        (min rmn (amount t) * rate t) +
        total_interest (interest_loop ts 0 (rmn - min rmn (amount t)) [])"
      using False Cons.IH [of "0 + min rmn (amount t) * rate t"]
      by (simp add: Let_def)
    show ?thesis using a b by simp
  qed
qed

lemma interest_loop_nonneg:
  "\<forall>t \<in> set ts. 0 \<le> rate t \<Longrightarrow> 0 \<le> total_interest (interest_loop ts 0 rmn [])"
proof (induction ts arbitrary: rmn)
  case Nil
  show ?case by simp
next
  case (Cons t ts)
  show ?case
  proof (cases "min rmn (amount t) \<le> 0")
    case True
    then show ?thesis by (simp add: Let_def)
  next
    case False
    have r: "0 \<le> rate t" using Cons.prems by simp
    have "0 \<le> min rmn (amount t)" using False by linarith
    then have p: "0 \<le> min rmn (amount t) * rate t"
      using r by (rule mult_nonneg_nonneg)
    have ih: "0 \<le> total_interest (interest_loop ts 0 (rmn - min rmn (amount t)) [])"
      using Cons.IH Cons.prems by simp
    have "total_interest (interest_loop (t # ts) 0 rmn []) =
        min rmn (amount t) * rate t +
        total_interest (interest_loop ts 0 (rmn - min rmn (amount t)) [])"
      using False
        interest_loop_total_shift [of ts "0 + min rmn (amount t) * rate t"]
      by (simp add: Let_def)
    then show ?thesis using p ih by simp
  qed
qed

lemma interest_loop_mono:
  "\<forall>t \<in> set ts. 0 \<le> rate t \<Longrightarrow> r1 \<le> r2 \<Longrightarrow>
   total_interest (interest_loop ts 0 r1 []) \<le> total_interest (interest_loop ts 0 r2 [])"
proof (induction ts arbitrary: r1 r2)
  case Nil
  show ?case by simp
next
  case (Cons t ts)
  have r: "0 \<le> rate t" and rs: "\<forall>t \<in> set ts. 0 \<le> rate t"
    using Cons.prems by simp_all
  show ?case
  proof (cases "min r1 (amount t) \<le> 0")
    case True
    then have "total_interest (interest_loop (t # ts) 0 r1 []) = 0"
      by (simp add: Let_def)
    then show ?thesis using interest_loop_nonneg [OF Cons.prems(1)] by simp
  next
    case False
    then have F2: "\<not> min r2 (amount t) \<le> 0" using Cons.prems(2) by (simp add: min_def split: if_splits)
    have e1: "total_interest (interest_loop (t # ts) 0 r1 []) =
        min r1 (amount t) * rate t +
        total_interest (interest_loop ts 0 (r1 - min r1 (amount t)) [])"
      using False interest_loop_total_shift [of ts "0 + min r1 (amount t) * rate t"]
      by (simp add: Let_def)
    have e2: "total_interest (interest_loop (t # ts) 0 r2 []) =
        min r2 (amount t) * rate t +
        total_interest (interest_loop ts 0 (r2 - min r2 (amount t)) [])"
      using F2 interest_loop_total_shift [of ts "0 + min r2 (amount t) * rate t"]
      by (simp add: Let_def)
    have m: "min r1 (amount t) \<le> min r2 (amount t)" using Cons.prems(2) by simp
    have p: "min r1 (amount t) * rate t \<le> min r2 (amount t) * rate t"
      using m r by (rule mult_right_mono)
    have d: "r1 - min r1 (amount t) \<le> r2 - min r2 (amount t)"
      using Cons.prems(2) by (simp add: min_def)
    have ih: "total_interest (interest_loop ts 0 (r1 - min r1 (amount t)) []) \<le>
        total_interest (interest_loop ts 0 (r2 - min r2 (amount t)) [])"
      using Cons.IH [OF rs d] .
    show ?thesis using e1 e2 p ih by simp
  qed
qed

text \<open>
  C9. For every deposit amount \<open>d \<le> 0\<close> and every tier list,
  \<open>calculate_bank_interest\<close> returns total interest 0 and an empty breakdown; the
  function is total, so it does not fail.
\<close>

theorem calculate_bank_interest_nonpositive:
  "d \<le> 0 \<Longrightarrow> calculate_bank_interest d ts = \<lparr>total_interest = 0, breakdown = []\<rparr>"
  by (simp add: calculate_bank_interest_def)

theorem calculate_bank_interest_nonpositive_witness:
  "(-5::real) \<le> 0 \<and>
   calculate_bank_interest (-5) [\<lparr>rate = 5 / 100, amount = 1000\<rparr>] =
     \<lparr>total_interest = 0, breakdown = []\<rparr>"
  using calculate_bank_interest_nonpositive [of "-5" "[\<lparr>rate = 5 / 100, amount = 1000\<rparr>]"]
  by simp

text \<open>
  C7. A tier of zero capacity is a hard stop: for every deposit \<open>d > 0\<close>, the result on
  a tier list that contains a zero-capacity tier is the result on the tiers before it,
  whatever follows; and on \<open>[(0.01, 100), (0, 0), (0.05, 1000)]\<close> with \<open>d = 500\<close> the
  total interest is \<open>100 * 0.01\<close>.
\<close>

theorem zero_capacity_tier_stops:
  "0 < d \<Longrightarrow> amount z = 0 \<Longrightarrow>
   calculate_bank_interest d (pre @ z # post) = calculate_bank_interest d pre \<and>
   total_interest (calculate_bank_interest 500
     [\<lparr>rate = 1 / 100, amount = 100\<rparr>, \<lparr>rate = 0, amount = 0\<rparr>,
      \<lparr>rate = 5 / 100, amount = 1000\<rparr>]) = 100 * (1 / 100)"
  by (simp add: calculate_bank_interest_def interest_loop_stop Let_def)

theorem zero_capacity_tier_stops_witness:
  "(0::real) < 500 \<and> amount \<lparr>rate = 0, amount = 0\<rparr> = 0 \<and>
   calculate_bank_interest 500
     ([\<lparr>rate = 1 / 100, amount = 100\<rparr>] @ \<lparr>rate = 0, amount = 0\<rparr> #
      [\<lparr>rate = 5 / 100, amount = 1000\<rparr>]) =
   calculate_bank_interest 500 [\<lparr>rate = 1 / 100, amount = 100\<rparr>] \<and>
   total_interest (calculate_bank_interest 500 [\<lparr>rate = 1 / 100, amount = 100\<rparr>]) = 1"
  using zero_capacity_tier_stops [of 500 "\<lparr>rate = 0, amount = 0\<rparr>"
      "[\<lparr>rate = 1 / 100, amount = 100\<rparr>]" "[\<lparr>rate = 5 / 100, amount = 1000\<rparr>]"]
  by (simp add: calculate_bank_interest_def Let_def)

text \<open>
  C8. For a fixed tier list with non-negative rates and capacities, the total interest
  is monotonically non-decreasing in the deposit amount.
\<close>

theorem calculate_bank_interest_mono:
  "\<forall>t \<in> set ts. 0 \<le> rate t \<and> 0 \<le> amount t \<Longrightarrow> d1 \<le> d2 \<Longrightarrow>
   total_interest (calculate_bank_interest d1 ts) \<le>
   total_interest (calculate_bank_interest d2 ts)"
proof -
  assume h: "\<forall>t \<in> set ts. 0 \<le> rate t \<and> 0 \<le> amount t" and le: "d1 \<le> d2"
  have rs: "\<forall>t \<in> set ts. 0 \<le> rate t" using h by simp
  show ?thesis
  proof (cases "d1 \<le> 0")
    case True
    then show ?thesis
      using interest_loop_nonneg [OF rs, of d2] by (simp add: calculate_bank_interest_def)
  next
    case False
    then show ?thesis
      using le interest_loop_mono [OF rs le] by (simp add: calculate_bank_interest_def)
  qed
qed

theorem calculate_bank_interest_mono_witness:
  "total_interest (calculate_bank_interest 120
     [\<lparr>rate = 5 / 100, amount = 100\<rparr>, \<lparr>rate = 1 / 100, amount = 50\<rparr>]) \<le>
   total_interest (calculate_bank_interest 200
     [\<lparr>rate = 5 / 100, amount = 100\<rparr>, \<lparr>rate = 1 / 100, amount = 50\<rparr>]) \<and>
   total_interest (calculate_bank_interest 120
     [\<lparr>rate = 5 / 100, amount = 100\<rparr>, \<lparr>rate = 1 / 100, amount = 50\<rparr>]) = 52 / 10 \<and>
   total_interest (calculate_bank_interest 200
     [\<lparr>rate = 5 / 100, amount = 100\<rparr>, \<lparr>rate = 1 / 100, amount = 50\<rparr>]) = 55 / 10"
proof -
  have h1: "\<forall>t \<in> set [\<lparr>rate = 5 / 100, amount = 100\<rparr>, \<lparr>rate = 1 / 100, amount = 50\<rparr>].
      (0::real) \<le> rate t \<and> 0 \<le> amount t" by simp
  have h2: "(120::real) \<le> 200" by simp
  show ?thesis
    using calculate_bank_interest_mono [OF h1 h2]
    by (simp add: calculate_bank_interest_def Let_def)
qed

section \<open>Auxiliary facts about the loops\<close>

lemma problem_loop_closed:
  "list_all (\<lambda>(n, ts). ts \<noteq> []) banks \<Longrightarrow>
   problem_loop banks ti cs bs ns =
     Inr (cs @ map (\<lambda>(n, ts). - rate (hd ts)) banks,
          bs @ map (\<lambda>(n, ts). (0, min (sum_list (map amount ts)) ti)) banks,
          ns @ map fst banks)"
proof (induction banks arbitrary: cs bs ns)
  case Nil
  show ?case by simp
next
  case (Cons b banks)
  obtain n ts where b: "b = (n, ts)" by (cases b)
  from Cons.prems b obtain t0 ts' where ts: "ts = t0 # ts'" by (cases ts) auto
  have rest: "list_all (\<lambda>(n, ts). ts \<noteq> []) banks" using Cons.prems by simp
  show ?case using Cons.IH [OF rest] by (simp add: b ts Let_def)
qed

lemma problem_loop_empty_tier:
  "\<not> list_all (\<lambda>(n, ts). ts \<noteq> []) banks \<Longrightarrow>
   problem_loop banks ti cs bs ns = Inl IndexError"
proof (induction banks arbitrary: cs bs ns)
  case Nil
  then show ?case by simp
next
  case (Cons b banks)
  obtain n ts where b: "b = (n, ts)" by (cases b)
  show ?case
  proof (cases ts)
    case Nil
    then show ?thesis by (simp add: b)
  next
    case (Cons t0 ts')
    then have "\<not> list_all (\<lambda>(n, ts). ts \<noteq> []) banks" using Cons.prems b by simp
    then show ?thesis using Cons.IH by (simp add: b Cons Let_def)
  qed
qed

lemma ones_row_sum:
  "length xs = n \<Longrightarrow> sum_list (map2 (*) (replicate n (1::real)) xs) = sum_list xs"
proof (induction xs arbitrary: n)
  case Nil
  then show ?case by simp
next
  case (Cons x xs)
  then obtain m where "n = Suc m" "length xs = m" by (cases n) auto
  then show ?case using Cons.IH [of m] by simp
qed

lemma create_optimization_problem_closed:
  "list_all (\<lambda>(n, ts). ts \<noteq> []) banks \<Longrightarrow>
   create_optimization_problem banks ti =
     Inr \<lparr>c = map (\<lambda>(n, ts). - rate (hd ts)) banks,
          A_eq = [replicate (length banks) 1],
          b_eq = [ti],
          bounds = map (\<lambda>(n, ts). (0, min (sum_list (map amount ts)) ti)) banks,
          bank_names = map fst banks\<rparr>"
  by (simp add: create_optimization_problem_def problem_loop_closed)

lemma dict_set_append: "k \<notin> fst ` set d \<Longrightarrow> dict_set d k v = d @ [(k, v)]"
  by (induction d k v rule: dict_set.induct) auto

lemma dict_get_member:
  "distinct (map fst d) \<Longrightarrow> (k, v) \<in> set d \<Longrightarrow> dict_get d k = Inr v"
proof (induction d)
  case Nil
  then show ?case by simp
next
  case (Cons p d)
  obtain k' v' where p: "p = (k', v')" by (cases p)
  show ?case
  proof (cases "k' = k")
    case True
    then have "(k, v) \<notin> set d" using Cons.prems(1) p by (auto simp: image_iff)
    then show ?thesis using Cons.prems(2) p True by simp
  next
    case False
    then show ?thesis using Cons p by simp
  qed
qed

lemma result_loop_closed:
  "distinct (map fst bs) \<Longrightarrow> (\<forall>b \<in> set bs. dict_get sb (fst b) = Inr (snd b)) \<Longrightarrow>
   fst ` set res \<inter> fst ` set bs = {} \<Longrightarrow> i + length bs \<le> length xs \<Longrightarrow>
   result_loop i (map fst bs) xs sb res tot =
     Inr (res @ map (\<lambda>((n, ts), x).
            (n, \<lparr>deposit = x,
                 annual_interest = total_interest (calculate_bank_interest x ts),
                 alloc_monthly_interest = total_interest (calculate_bank_interest x ts) / 12,
                 alloc_breakdown = breakdown (calculate_bank_interest x ts)\<rparr>))
            (filter (\<lambda>(b, x). 1 / 100 < x) (zip bs (drop i xs))),
          tot + sum_list (map (\<lambda>((n, ts), x). total_interest (calculate_bank_interest x ts))
            (filter (\<lambda>(b, x). 1 / 100 < x) (zip bs (drop i xs)))))"
proof (induction bs arbitrary: i res tot)
  case Nil
  show ?case by simp
next
  case (Cons b bs)
  obtain n ts where b: "b = (n, ts)" by (cases b)
  have i: "i < length xs" using Cons.prems(4) by simp
  have dr: "drop i xs = xs ! i # drop (Suc i) xs" using i by (simp add: Cons_nth_drop_Suc)
  have g: "dict_get sb n = Inr ts" using Cons.prems(2) b by simp
  have d: "distinct (map fst bs)" using Cons.prems(1) by simp
  have a: "\<forall>b \<in> set bs. dict_get sb (fst b) = Inr (snd b)" using Cons.prems(2) by simp
  have l: "Suc i + length bs \<le> length xs" using Cons.prems(4) by simp
  have nres: "n \<notin> fst ` set res" using Cons.prems(3) b by auto
  show ?case
  proof (cases "1 / 100 < xs ! i")
    case True
    let ?al = "\<lparr>deposit = xs ! i,
                 annual_interest = total_interest (calculate_bank_interest (xs ! i) ts),
                 alloc_monthly_interest = total_interest (calculate_bank_interest (xs ! i) ts) / 12,
                 alloc_breakdown = breakdown (calculate_bank_interest (xs ! i) ts)\<rparr>"
    have disj: "fst ` set (res @ [(n, ?al)]) \<inter> fst ` set bs = {}"
      using Cons.prems(1,3) b by auto
    show ?thesis
      using True i g Cons.IH [OF d a disj l]
      by (simp add: b dr Let_def dict_set_append [OF nres] del: drop_Suc)
  next
    case False
    have disj: "fst ` set res \<inter> fst ` set bs = {}" using Cons.prems(3) by auto
    show ?thesis
      using False i Cons.IH [OF d a disj l]
      by (simp add: b dr Let_def)
  qed
qed

lemma simplified_keys:
  "map fst (map (\<lambda>(n, info). (n, tiers info)) banks) = map fst banks"
  by (induction banks) auto

lemma created_names:
  "create_optimization_problem sb ti = Inr p \<Longrightarrow> bank_names p = map fst sb"
proof -
  assume h: "create_optimization_problem sb ti = Inr p"
  have "list_all (\<lambda>(n, ts). ts \<noteq> []) sb"
  proof (rule ccontr)
    assume "\<not> list_all (\<lambda>(n, ts). ts \<noteq> []) sb"
    then have "problem_loop sb ti [] [] [] = Inl IndexError" by (rule problem_loop_empty_tier)
    then show False using h by (simp add: create_optimization_problem_def)
  qed
  then show ?thesis using h create_optimization_problem_closed [of sb ti] by auto
qed

lemma simple_allocation_returns:
  "ti \<noteq> 0 \<Longrightarrow> \<exists>r. simple_allocation sb ti = Inr r"
  by (simp add: simple_allocation_def py_div_def Let_def split: prod.splits)

lemma allocation_loop_zero: "allocation_loop ts 0 allocs tot = (allocs, tot)"
  by (cases ts) simp_all

lemma simple_allocation_zero: "simple_allocation sb 0 = Inl ZeroDivisionError"
  by (simp add: simple_allocation_def py_div_def Let_def allocation_loop_zero)


lemma candidate_loop_none:
  "\<forall>k \<in> set S. \<exists>r. optimize_deposits linprog (modified_banks_data k banks) ti = Inr r \<and>
      total_annual_interest r \<le> bi \<Longrightarrow>
   candidate_loop linprog banks ti S best bi = Inr best"
proof (induction S)
  case Nil
  show ?case by simp
next
  case (Cons k S)
  obtain r where r: "optimize_deposits linprog (modified_banks_data k banks) ti = Inr r"
    and le: "total_annual_interest r \<le> bi" using Cons.prems by auto
  have "candidate_loop linprog banks ti S best bi = Inr best"
    using Cons.IH Cons.prems by simp
  then show ?case using r le by simp
qed

lemma candidate_loop_pick:
  "\<forall>k \<in> set S. optimize_deposits linprog (modified_banks_data k banks) ti = Inr (f k) \<Longrightarrow>
   \<exists>k \<in> set S. bi < total_annual_interest (f k) \<Longrightarrow>
   \<exists>pre k post. S = pre @ k # post \<and>
     (\<forall>j \<in> set pre. total_annual_interest (f j) < total_annual_interest (f k)) \<and>
     (\<forall>j \<in> set post. total_annual_interest (f j) \<le> total_annual_interest (f k)) \<and>
     bi < total_annual_interest (f k) \<and>
     candidate_loop linprog banks ti S best bi =
       Inr (Some ((f k)\<lparr>chosen_salary_bank := Some (Some k)\<rparr>))"
proof (induction S arbitrary: best bi)
  case Nil
  then show ?case by simp
next
  case (Cons k S)
  have fk: "optimize_deposits linprog (modified_banks_data k banks) ti = Inr (f k)"
    using Cons.prems(1) by simp
  have rest: "\<forall>k \<in> set S. optimize_deposits linprog (modified_banks_data k banks) ti = Inr (f k)"
    using Cons.prems(1) by simp
  let ?t = "\<lambda>j. total_annual_interest (f j)"
  show ?case
  proof (cases "bi < ?t k")
    case True
    let ?b = "Some ((f k)\<lparr>chosen_salary_bank := Some (Some k)\<rparr>)"
    have step: "candidate_loop linprog banks ti (k # S) best bi =
        candidate_loop linprog banks ti S ?b (?t k)"
      using fk True by simp
    show ?thesis
    proof (cases "\<exists>j \<in> set S. ?t k < ?t j")
      case True
      from Cons.IH [OF rest True, of ?b]
      obtain pre m post where m: "S = pre @ m # post"
        "\<forall>j \<in> set pre. ?t j < ?t m" "\<forall>j \<in> set post. ?t j \<le> ?t m" "?t k < ?t m"
        "candidate_loop linprog banks ti S ?b (?t k) =
           Inr (Some ((f m)\<lparr>chosen_salary_bank := Some (Some m)\<rparr>))"
        by blast
      have "k # S = (k # pre) @ m # post" using m(1) by simp
      moreover have "\<forall>j \<in> set (k # pre). ?t j < ?t m" using m(2,4) by simp
      moreover have "bi < ?t m" using \<open>bi < ?t k\<close> m(4) by simp
      ultimately show ?thesis using m(3,5) step by metis
    next
      case False
      then have le: "\<forall>j \<in> set S. ?t j \<le> ?t k" by (auto simp: not_less)
      have "\<forall>j \<in> set S. \<exists>r. optimize_deposits linprog (modified_banks_data j banks) ti = Inr r \<and>
          total_annual_interest r \<le> ?t k" using rest le by simp
      then have "candidate_loop linprog banks ti S ?b (?t k) = Inr ?b"
        by (rule candidate_loop_none)
      then have "candidate_loop linprog banks ti (k # S) best bi = Inr ?b" using step by simp
      moreover have "k # S = [] @ k # S" by simp
      moreover have "\<forall>j \<in> set []. ?t j < ?t k" by simp
      ultimately show ?thesis using le True by metis
    qed
  next
    case False
    then have step: "candidate_loop linprog banks ti (k # S) best bi =
        candidate_loop linprog banks ti S best bi"
      using fk by simp
    have ex: "\<exists>j \<in> set S. bi < ?t j" using Cons.prems(2) False by auto
    from Cons.IH [OF rest ex, of best]
    obtain pre m post where m: "S = pre @ m # post"
      "\<forall>j \<in> set pre. ?t j < ?t m" "\<forall>j \<in> set post. ?t j \<le> ?t m" "bi < ?t m"
      "candidate_loop linprog banks ti S best bi =
         Inr (Some ((f m)\<lparr>chosen_salary_bank := Some (Some m)\<rparr>))"
      by blast
    have "k # S = (k # pre) @ m # post" using m(1) by simp
    moreover have "\<forall>j \<in> set (k # pre). ?t j < ?t m" using m(2,4) False by simp
    ultimately show ?thesis using m(3,4,5) step by metis
  qed
qed

lemma created_nonempty:
  "create_optimization_problem sb ti = Inr p \<Longrightarrow> list_all (\<lambda>(n, ts). ts \<noteq> []) sb"
proof (rule ccontr)
  assume h: "create_optimization_problem sb ti = Inr p"
    and "\<not> list_all (\<lambda>(n, ts). ts \<noteq> []) sb"
  then have "problem_loop sb ti [] [] [] = Inl IndexError" by (simp add: problem_loop_empty_tier)
  then show False using h by (simp add: create_optimization_problem_def)
qed

lemma optimize_deposits_zero: "optimize_deposits linprog banks 0 \<noteq> Inr r"
  by (auto simp: optimize_deposits_def try_body_def py_div_def simple_allocation_zero Let_def
      split: sum.splits lp_outcome.splits prod.splits)

lemma optimize_deposits_returns:
  assumes ne: "list_all (\<lambda>(n, info). tiers info \<noteq> []) banks" and ti: "ti \<noteq> 0"
  shows "\<exists>r. optimize_deposits linprog banks ti = Inr r"
proof -
  let ?sb = "map (\<lambda>(n, info). (n, tiers info)) banks"
  have "list_all (\<lambda>(n, ts). ts \<noteq> []) ?sb"
    using ne by (induction banks) auto
  then obtain p where p: "create_optimization_problem ?sb ti = Inr p"
    using create_optimization_problem_closed [of ?sb ti] by simp
  obtain r where r: "simple_allocation ?sb ti = Inr r"
    using simple_allocation_returns [OF ti] by blast
  show ?thesis using p r
    by (cases "try_body linprog p ?sb ti") (simp_all add: optimize_deposits_def Let_def)
qed

lemma optimize_deposits_inputs:
  assumes "optimize_deposits linprog banks ti = Inr r"
  shows "list_all (\<lambda>(n, info). tiers info \<noteq> []) banks \<and> ti \<noteq> 0"
proof -
  let ?sb = "map (\<lambda>(n, info). (n, tiers info)) banks"
  obtain p where p: "create_optimization_problem ?sb ti = Inr p"
    using assms by (cases "create_optimization_problem ?sb ti")
      (simp_all add: optimize_deposits_def Let_def)
  have "list_all (\<lambda>(n, ts). ts \<noteq> []) ?sb" using p by (rule created_nonempty)
  then have "list_all (\<lambda>(n, info). tiers info \<noteq> []) banks"
    by (induction banks) auto
  moreover have "ti \<noteq> 0" using assms optimize_deposits_zero by blast
  ultimately show ?thesis by simp
qed

lemma modified_nonempty:
  "list_all (\<lambda>(n, info). tiers info \<noteq> []) banks \<Longrightarrow>
   list_all (\<lambda>(n, info). tiers info \<noteq> []) (modified_banks_data k banks)"
  by (induction banks) (auto simp: modified_banks_data_def split: if_splits)

lemma resolve_returns:
  "optimize_deposits linprog banks ti = Inr r0 \<Longrightarrow>
   \<exists>r. optimize_deposits linprog (modified_banks_data k banks) ti = Inr r"
  using optimize_deposits_inputs optimize_deposits_returns modified_nonempty by blast

lemma modified_shape:
  "list_all2 (\<lambda>(n, info) (n', info'). n' = n \<and>
      (if requires_salary info \<and> n \<noteq> k
       then map amount (tiers info') = map amount (tiers info) \<and>
            list_all (\<lambda>t. rate t = 0) (tiers info')
       else info' = info)) banks (modified_banks_data k banks)"
  by (induction banks) (auto simp: modified_banks_data_def list_all_iff comp_def)


lemmas eval_defs = optimize_deposits_def try_body_def create_optimization_problem_def
  simple_allocation_def py_div_def Let_def calculate_bank_interest_def flatten_tiers_def
  modified_banks_data_def optimize_with_salary_constraint_def

section \<open>Properties of create\_optimization\_problem\<close>

text \<open>
  Against C5 as stated: on an account set with an account without tiers, line 55
  (\<open>tiers[0]\<close>) raises IndexError and no problem is built.
\<close>

theorem create_optimization_problem_tierless:
  "create_optimization_problem
     [(''A'', [\<lparr>rate = 5 / 100, amount = 1000\<rparr>]), (''B'', [])] 100 = Inl IndexError"
  by (simp add: eval_defs)

text \<open>
  C5 (as amended). For every account set in which every account has at least one tier,
  and every \<open>total_investment\<close>, the problem built by \<open>create_optimization_problem\<close>
  has, per account, the negated rate of the first tier as objective coefficient and the
  bound \<open>[0, min (sum of capacities) total_investment]\<close>, and its single equality
  constraint says that the variables sum to \<open>total_investment\<close>.
\<close>

theorem create_optimization_problem_lp:
  "list_all (\<lambda>(n, ts). ts \<noteq> []) banks \<Longrightarrow> length xs = length banks \<Longrightarrow>
   \<exists>p. create_optimization_problem banks ti = Inr p \<and>
     c p = map (\<lambda>(n, ts). - rate (hd ts)) banks \<and>
     bounds p = map (\<lambda>(n, ts). (0, min (sum_list (map amount ts)) ti)) banks \<and>
     A_eq p = [replicate (length banks) 1] \<and> b_eq p = [ti] \<and>
     bank_names p = map fst banks \<and>
     (list_all2 (\<lambda>row b. sum_list (map2 (*) row xs) = b) (A_eq p) (b_eq p) =
        (sum_list xs = ti))"
  by (simp add: create_optimization_problem_closed ones_row_sum)

theorem create_optimization_problem_lp_witness:
  "create_optimization_problem
     [(''A'', [\<lparr>rate = 5 / 100, amount = 1000\<rparr>, \<lparr>rate = 1 / 100, amount = 500\<rparr>]),
      (''B'', [\<lparr>rate = 3 / 100, amount = 200\<rparr>])] 1000 =
   Inr \<lparr>c = [- (5 / 100), - (3 / 100)], A_eq = [[1, 1]], b_eq = [1000],
        bounds = [(0, 1000), (0, 200)], bank_names = [''A'', ''B'']\<rparr>"
proof -
  let ?banks = "[(''A'', [\<lparr>rate = 5 / 100, amount = 1000\<rparr>, \<lparr>rate = 1 / 100, amount = 500\<rparr>]),
      (''B'', [\<lparr>rate = 3 / 100, amount = 200\<rparr>])]"
  have h1: "list_all (\<lambda>(n, ts). ts \<noteq> []) ?banks" by simp
  have h2: "length [800, 200 :: real] = length ?banks" by simp
  show ?thesis
    using create_optimization_problem_lp [OF h1 h2, of 1000]
    by (simp add: eval_defs)
qed

section \<open>Properties of optimize\_deposits\<close>

text \<open>
  The success path on a non-zero \<open>total_investment\<close>, with distinct account names and
  one deposit per account: \<open>optimize_deposits\<close> returns a result whose allocations are
  exactly the accounts whose solved deposit exceeds 0.01, in account order, each with
  the annual interest and breakdown that \<open>calculate_bank_interest\<close> computes on the
  solved deposit; the total is the sum of these recomputed interests.
\<close>

theorem optimize_deposits_solved:
  assumes dist: "distinct (map fst banks)"
    and sb: "sb = map (\<lambda>(n, info). (n, tiers info)) banks"
    and cr: "create_optimization_problem sb ti = Inr p"
    and lp: "linprog (c p) (A_eq p) (b_eq p) (bounds p) = Success xs"
    and len: "length banks \<le> length xs"
    and ti: "ti \<noteq> 0"
  shows "\<exists>r. optimize_deposits linprog banks ti = Inr r \<and>
     allocations r = map (\<lambda>((n, ts), x).
            (n, \<lparr>deposit = x,
                 annual_interest = total_interest (calculate_bank_interest x ts),
                 alloc_monthly_interest = total_interest (calculate_bank_interest x ts) / 12,
                 alloc_breakdown = breakdown (calculate_bank_interest x ts)\<rparr>))
            (filter (\<lambda>(b, x). 1 / 100 < x) (zip sb xs)) \<and>
     total_annual_interest r = sum_list (map (\<lambda>(n, a). annual_interest a) (allocations r))"
proof -
  have keys: "map fst sb = map fst banks" using sb simplified_keys by simp
  have d: "distinct (map fst sb)" using dist keys by simp
  have g: "\<forall>b \<in> set sb. dict_get sb (fst b) = Inr (snd b)"
    using dict_get_member [OF d] by auto
  have l: "0 + length sb \<le> length xs" using len sb by simp
  have e: "fst ` set ([] :: (string \<times> allocation) list) \<inter> fst ` set sb = {}" by simp
  have names: "bank_names p = map fst sb" using cr by (rule created_names)
  note rl = result_loop_closed [OF d g e l, of 0]
  let ?sel = "filter (\<lambda>(b, x). 1 / 100 < x) (zip sb xs)"
  have sum_eq: "sum_list (map (\<lambda>((n, ts), x). total_interest (calculate_bank_interest x ts)) ys) =
     sum_list (map (\<lambda>(n, a). annual_interest a) (map (\<lambda>((n, ts), x).
            (n, \<lparr>deposit = x,
                 annual_interest = total_interest (calculate_bank_interest x ts),
                 alloc_monthly_interest = total_interest (calculate_bank_interest x ts) / 12,
                 alloc_breakdown = breakdown (calculate_bank_interest x ts)\<rparr>)) ys))" for ys
    by (induction ys) auto
  show ?thesis
    using rl ti lp names cr sum_eq [of ?sel] sb
    by (simp add: optimize_deposits_def try_body_def py_div_def Let_def)
qed

theorem optimize_deposits_solved_witness:
  "optimize_deposits (\<lambda>cs A b bd.
       if cs = [- (3 / 100), - (25 / 1000), - (1 / 100)] then Success [50000, 10000, 0]
       else if cs = [- (3 / 100), 0, - (1 / 100)] then Success [50000, 0, 10000]
       else if cs = [0, - (25 / 1000), - (1 / 100)] then Success [0, 60000, 0]
       else NoSuccess)
     [(''A'', \<lparr>tiers = [\<lparr>rate = 3 / 100, amount = 50000\<rparr>], requires_salary = True\<rparr>),
      (''B'', \<lparr>tiers = [\<lparr>rate = 25 / 1000, amount = 80000\<rparr>], requires_salary = True\<rparr>),
      (''C'', \<lparr>tiers = [\<lparr>rate = 1 / 100, amount = 100000\<rparr>], requires_salary = False\<rparr>)] 60000 =
   Inr \<lparr>allocations =
        [(''A'', \<lparr>deposit = 50000, annual_interest = 1500, alloc_monthly_interest = 125,
            alloc_breakdown = [\<lparr>amount_in_tier = 50000, tier_rate = 3 / 100,
              tier_interest = 1500, monthly_interest = 125\<rparr>]\<rparr>),
         (''B'', \<lparr>deposit = 10000, annual_interest = 250, alloc_monthly_interest = 125 / 6,
            alloc_breakdown = [\<lparr>amount_in_tier = 10000, tier_rate = 1 / 40,
              tier_interest = 250, monthly_interest = 125 / 6\<rparr>]\<rparr>)],
        total_annual_interest = 1750, total_monthly_interest = 875 / 6,
        effective_rate = 35 / 12, chosen_salary_bank = None\<rparr>"
proof -
  let ?lp = "(\<lambda>cs A b bd.
       if cs = [- (3 / 100), - (25 / 1000), - (1 / 100)] then Success [50000, 10000, 0]
       else if cs = [- (3 / 100), 0, - (1 / 100)] then Success [50000, 0, 10000]
       else if cs = [0, - (25 / 1000), - (1 / 100)] then Success [0, 60000, 0]
       else NoSuccess) :: solver"
  let ?w = "[(''A'', \<lparr>tiers = [\<lparr>rate = 3 / 100, amount = 50000\<rparr>], requires_salary = True\<rparr>),
      (''B'', \<lparr>tiers = [\<lparr>rate = 25 / 1000, amount = 80000\<rparr>], requires_salary = True\<rparr>),
      (''C'', \<lparr>tiers = [\<lparr>rate = 1 / 100, amount = 100000\<rparr>], requires_salary = False\<rparr>)]"
  let ?p = "\<lparr>c = [- (3 / 100), - (25 / 1000), - (1 / 100)], A_eq = [[1, 1, 1]],
      b_eq = [60000], bounds = [(0, 50000), (0, 60000), (0, 60000)],
      bank_names = [''A'', ''B'', ''C'']\<rparr>"
  have h1: "distinct (map fst ?w)" by simp
  have h3: "create_optimization_problem (map (\<lambda>(n, info). (n, tiers info)) ?w) 60000 = Inr ?p"
    by (simp add: eval_defs)
  have h4: "?lp (c ?p) (A_eq ?p) (b_eq ?p) (bounds ?p) = Success [50000, 10000, 0]" by simp
  have h5: "length ?w \<le> length [50000, 10000, 0 :: real]" by simp
  have h6: "(60000 :: real) \<noteq> 0" by simp
  show ?thesis
    using optimize_deposits_solved [where linprog = ?lp and p = ?p, OF h1 refl h3 h4 h5 h6]
    by (simp add: eval_defs)
qed

text \<open>
  C6. When the solver succeeds, the claim asks for allocations that hold exactly the
  accounts with a solved deposit above 0.01. With \<open>total_investment = 0\<close> the solver
  succeeds with every deposit 0, so the allocations should be empty; the code builds
  them and then divides by \<open>total_investment\<close> in line 170, the handler calls
  \<open>simple_allocation\<close>, line 120 divides again, and ZeroDivisionError reaches the
  caller instead of a result.
\<close>

theorem solved_zero_investment_raises:
  "create_optimization_problem
     (map (\<lambda>(n, info). (n, tiers info))
       [(''A'', \<lparr>tiers = [\<lparr>rate = 5 / 100, amount = 1000\<rparr>], requires_salary = False\<rparr>),
      (''B'', \<lparr>tiers = [\<lparr>rate = 3 / 100, amount = 500\<rparr>], requires_salary = False\<rparr>)]) 0 =
     Inr \<lparr>c = [- (5 / 100), - (3 / 100)], A_eq = [[1, 1]], b_eq = [0],
          bounds = [(0, 0), (0, 0)], bank_names = [''A'', ''B'']\<rparr> \<and>
   result_loop 0 [''A'', ''B''] [0, 0]
     (map (\<lambda>(n, info). (n, tiers info))
       [(''A'', \<lparr>tiers = [\<lparr>rate = 5 / 100, amount = 1000\<rparr>], requires_salary = False\<rparr>),
      (''B'', \<lparr>tiers = [\<lparr>rate = 3 / 100, amount = 500\<rparr>], requires_salary = False\<rparr>)]) [] 0 = Inr ([], 0) \<and>
   optimize_deposits (\<lambda>cs A b bd. Success [0, 0])
     [(''A'', \<lparr>tiers = [\<lparr>rate = 5 / 100, amount = 1000\<rparr>], requires_salary = False\<rparr>),
      (''B'', \<lparr>tiers = [\<lparr>rate = 3 / 100, amount = 500\<rparr>], requires_salary = False\<rparr>)] 0 = Inl ZeroDivisionError"
  by (simp add: eval_defs)

text \<open>
  C3 (as amended). When every account has at least one tier, so that the problem is
  built, and the solver reports failure or raises, \<open>optimize_deposits\<close> returns what
  \<open>simple_allocation\<close> returns on the same input, which is a result and not an error
  when \<open>total_investment\<close> is not 0.
\<close>

theorem fallback_on_solver_failure:
  assumes sb: "sb = map (\<lambda>(n, info). (n, tiers info)) banks"
    and cr: "create_optimization_problem sb ti = Inr p"
    and lp: "linprog (c p) (A_eq p) (b_eq p) (bounds p) = NoSuccess \<or>
             linprog (c p) (A_eq p) (b_eq p) (bounds p) = Raised"
  shows "optimize_deposits linprog banks ti = simple_allocation sb ti \<and>
         (ti \<noteq> 0 \<longrightarrow> (\<exists>r. optimize_deposits linprog banks ti = Inr r))"
proof -
  have eq: "optimize_deposits linprog banks ti = simple_allocation sb ti"
    using lp cr sb
    by (auto simp: optimize_deposits_def try_body_def Let_def split: sum.splits)
  show ?thesis using eq simple_allocation_returns [of ti sb] by simp
qed

theorem fallback_on_solver_failure_witness:
  "optimize_deposits (\<lambda>cs A b bd. Raised) [(''A'', \<lparr>tiers = [\<lparr>rate = 5 / 100, amount = 1000\<rparr>], requires_salary = False\<rparr>)] 500 =
   simple_allocation [(''A'', [\<lparr>rate = 5 / 100, amount = 1000\<rparr>])] 500 \<and>
   simple_allocation [(''A'', [\<lparr>rate = 5 / 100, amount = 1000\<rparr>])] 500 =
   Inr \<lparr>allocations =
         [(''A'', \<lparr>deposit = 500, annual_interest = 25, alloc_monthly_interest = 25 / 12,
            alloc_breakdown = [\<lparr>amount_in_tier = 500, tier_rate = 5 / 100,
              tier_interest = 25, monthly_interest = 25 / 12\<rparr>]\<rparr>)],
        total_annual_interest = 25, total_monthly_interest = 25 / 12,
        effective_rate = 5, chosen_salary_bank = None\<rparr>"
proof -
  let ?lp = "(\<lambda>cs A b bd. Raised) :: solver"
  let ?w = "[(''A'', \<lparr>tiers = [\<lparr>rate = 5 / 100, amount = 1000\<rparr>], requires_salary = False\<rparr>)]"
  let ?p = "\<lparr>c = [- (5 / 100)], A_eq = [[1]], b_eq = [500], bounds = [(0, 500)],
      bank_names = [''A'']\<rparr>"
  have h2: "create_optimization_problem (map (\<lambda>(n, info). (n, tiers info)) ?w) 500 = Inr ?p"
    by (simp add: eval_defs)
  have h3: "?lp (c ?p) (A_eq ?p) (b_eq ?p) (bounds ?p) = NoSuccess \<or>
            ?lp (c ?p) (A_eq ?p) (b_eq ?p) (bounds ?p) = Raised" by simp
  show ?thesis
    using fallback_on_solver_failure [where linprog = ?lp and p = ?p, OF refl h2 h3]
    by (simp add: eval_defs)
qed

text \<open>
  Against C3 as stated: an account without tiers makes line 55 raise IndexError before
  the \<open>try\<close> statement is entered, so the error reaches the caller although the solver
  reports failure and \<open>simple_allocation\<close> has a result for this input.
\<close>

theorem formulation_error_escapes:
  "optimize_deposits (\<lambda>cs A b bd. NoSuccess)
     [(''A'', \<lparr>tiers = [], requires_salary = False\<rparr>)] 100 = Inl IndexError \<and>
   simple_allocation [(''A'', [])] 100 =
     Inr \<lparr>allocations = [], total_annual_interest = 0, total_monthly_interest = 0,
          effective_rate = 0, chosen_salary_bank = None\<rparr>"
  by (simp add: eval_defs)

text \<open>
  C1. With \<open>total_investment = 0\<close> the claim asks for a result with empty allocations
  and zero totals. The code divides by \<open>total_investment\<close> in line 120 and in line
  170: \<open>simple_allocation\<close> raises ZeroDivisionError on every account set, and so does
  \<open>optimize_deposits\<close>, whose handler calls \<open>simple_allocation\<close>.
\<close>

theorem zero_investment_raises:
  "simple_allocation sb 0 = Inl ZeroDivisionError \<and>
   optimize_deposits (\<lambda>cs A b bd. Success [0]) [(''A'', \<lparr>tiers = [\<lparr>rate = 5 / 100, amount = 1000\<rparr>], requires_salary = False\<rparr>)] 0 = Inl ZeroDivisionError \<and>
   optimize_deposits (\<lambda>cs A b bd. NoSuccess) [(''A'', \<lparr>tiers = [\<lparr>rate = 5 / 100, amount = 1000\<rparr>], requires_salary = False\<rparr>)] 0 = Inl ZeroDivisionError"
  by (simp add: simple_allocation_zero) (simp add: eval_defs)

section \<open>Properties of optimize\_with\_salary\_constraint\<close>

text \<open>
  C10. If two or more salary-requiring accounts received allocation in the unconstrained
  run and every re-solve yields a total annual interest not greater than 0,
  \<open>optimize_with_salary_constraint\<close> returns \<open>None\<close>.
\<close>

theorem salary_search_none:
  assumes init: "optimize_deposits linprog banks ti = Inr r0"
    and S: "salary_requiring banks (map fst (allocations r0)) = Inr S"
    and two: "2 \<le> length S"
    and all: "\<forall>k \<in> set S. \<exists>r. optimize_deposits linprog (modified_banks_data k banks) ti = Inr r \<and>
        total_annual_interest r \<le> 0"
  shows "optimize_with_salary_constraint linprog banks ti = Inr None"
proof -
  have "candidate_loop linprog banks ti S None 0 = Inr None"
    using all by (rule candidate_loop_none)
  then show ?thesis using init S two
    by (auto simp: optimize_with_salary_constraint_def)
qed

theorem salary_search_none_witness:
  "optimize_with_salary_constraint (\<lambda>cs A b bd. Success [100, 50])
     [(''A'', \<lparr>tiers = [\<lparr>rate = 0, amount = 100\<rparr>], requires_salary = True\<rparr>),
      (''B'', \<lparr>tiers = [\<lparr>rate = 0, amount = 100\<rparr>], requires_salary = True\<rparr>)] 150 = Inr None"
proof -
  let ?lp = "(\<lambda>cs A b bd. Success [100, 50]) :: solver"
  let ?w = "[(''A'', \<lparr>tiers = [\<lparr>rate = 0, amount = 100\<rparr>], requires_salary = True\<rparr>),
      (''B'', \<lparr>tiers = [\<lparr>rate = 0, amount = 100\<rparr>], requires_salary = True\<rparr>)]"
  let ?r = "\<lparr>allocations =
        [(''A'', \<lparr>deposit = 100, annual_interest = 0, alloc_monthly_interest = 0,
            alloc_breakdown = [\<lparr>amount_in_tier = 100, tier_rate = 0,
              tier_interest = 0, monthly_interest = 0\<rparr>]\<rparr>),
         (''B'', \<lparr>deposit = 50, annual_interest = 0, alloc_monthly_interest = 0,
            alloc_breakdown = [\<lparr>amount_in_tier = 50, tier_rate = 0,
              tier_interest = 0, monthly_interest = 0\<rparr>]\<rparr>)],
        total_annual_interest = 0, total_monthly_interest = 0,
        effective_rate = 0, chosen_salary_bank = None\<rparr>"
  have h1: "optimize_deposits ?lp ?w 150 = Inr ?r" by (simp add: eval_defs)
  have h2: "salary_requiring ?w (map fst (allocations ?r)) = Inr [''A'', ''B'']" by simp
  have h3: "2 \<le> length [''A'', ''B'']" by simp
  have h4: "\<forall>k \<in> set [''A'', ''B'']. \<exists>r.
      optimize_deposits ?lp (modified_banks_data k ?w) 150 = Inr r \<and>
      total_annual_interest r \<le> 0" by (simp add: eval_defs)
  show ?thesis
    using salary_search_none [OF h1 h2 h3 h4] by simp
qed

text \<open>
  The candidate loop where it does select: when two or more salary-requiring accounts
  received allocation in the unconstrained run, each candidate is re-solved on a fresh
  account set in which every other salary-requiring account has all rates 0 and its
  capacities unchanged, and every other account is unchanged. If some candidate's total
  annual interest is greater than 0, the returned result is the result of the earliest
  candidate whose total is greatest (earlier candidates are strictly smaller, later ones
  not greater), tagged with that candidate.
\<close>

theorem salary_search_first_maximum:
  assumes init: "optimize_deposits linprog banks ti = Inr r0"
    and S: "salary_requiring banks (map fst (allocations r0)) = Inr S"
    and two: "2 \<le> length S"
    and pos: "\<exists>k \<in> set S. \<exists>r. optimize_deposits linprog (modified_banks_data k banks) ti = Inr r \<and>
        0 < total_annual_interest r"
  shows "(\<forall>j. list_all2 (\<lambda>(n, info) (n', info'). n' = n \<and>
            (if requires_salary info \<and> n \<noteq> j
             then map amount (tiers info') = map amount (tiers info) \<and>
                  list_all (\<lambda>t. rate t = 0) (tiers info')
             else info' = info)) banks (modified_banks_data j banks)) \<and>
    (\<exists>f pre k post.
      (\<forall>j \<in> set S. optimize_deposits linprog (modified_banks_data j banks) ti = Inr (f j)) \<and>
      S = pre @ k # post \<and>
      (\<forall>j \<in> set pre. total_annual_interest (f j) < total_annual_interest (f k)) \<and>
      (\<forall>j \<in> set post. total_annual_interest (f j) \<le> total_annual_interest (f k)) \<and>
      optimize_with_salary_constraint linprog banks ti =
        Inr (Some ((f k)\<lparr>chosen_salary_bank := Some (Some k)\<rparr>)))"
proof -
  define f where "f j = (case optimize_deposits linprog (modified_banks_data j banks) ti of
      Inr r \<Rightarrow> r | Inl e \<Rightarrow> r0)" for j
  have fj: "optimize_deposits linprog (modified_banks_data j banks) ti = Inr (f j)" for j
    using resolve_returns [OF init, of j] by (auto simp: f_def)
  have all: "\<forall>j \<in> set S. optimize_deposits linprog (modified_banks_data j banks) ti = Inr (f j)"
    using fj by simp
  have ex: "\<exists>k \<in> set S. 0 < total_annual_interest (f k)"
    using pos fj by auto
  from candidate_loop_pick [OF all ex, of None]
  obtain pre k post where k: "S = pre @ k # post"
    "\<forall>j \<in> set pre. total_annual_interest (f j) < total_annual_interest (f k)"
    "\<forall>j \<in> set post. total_annual_interest (f j) \<le> total_annual_interest (f k)"
    "candidate_loop linprog banks ti S None 0 =
       Inr (Some ((f k)\<lparr>chosen_salary_bank := Some (Some k)\<rparr>))"
    by blast
  have "optimize_with_salary_constraint linprog banks ti =
       Inr (Some ((f k)\<lparr>chosen_salary_bank := Some (Some k)\<rparr>))"
    using init S two k(4) by (auto simp: optimize_with_salary_constraint_def)
  then show ?thesis using all k(1,2,3) modified_shape by blast
qed

theorem salary_search_first_maximum_witness:
  "optimize_with_salary_constraint (\<lambda>cs A b bd.
       if cs = [- (3 / 100), - (25 / 1000), - (1 / 100)] then Success [50000, 10000, 0]
       else if cs = [- (3 / 100), 0, - (1 / 100)] then Success [50000, 0, 10000]
       else if cs = [0, - (25 / 1000), - (1 / 100)] then Success [0, 60000, 0]
       else NoSuccess)
     [(''A'', \<lparr>tiers = [\<lparr>rate = 3 / 100, amount = 50000\<rparr>], requires_salary = True\<rparr>),
      (''B'', \<lparr>tiers = [\<lparr>rate = 25 / 1000, amount = 80000\<rparr>], requires_salary = True\<rparr>),
      (''C'', \<lparr>tiers = [\<lparr>rate = 1 / 100, amount = 100000\<rparr>], requires_salary = False\<rparr>)] 60000 =
   Inr (Some \<lparr>allocations =
        [(''A'', \<lparr>deposit = 50000, annual_interest = 1500, alloc_monthly_interest = 125,
            alloc_breakdown = [\<lparr>amount_in_tier = 50000, tier_rate = 3 / 100,
              tier_interest = 1500, monthly_interest = 125\<rparr>]\<rparr>),
         (''C'', \<lparr>deposit = 10000, annual_interest = 100, alloc_monthly_interest = 25 / 3,
            alloc_breakdown = [\<lparr>amount_in_tier = 10000, tier_rate = 1 / 100,
              tier_interest = 100, monthly_interest = 25 / 3\<rparr>]\<rparr>)],
        total_annual_interest = 1600, total_monthly_interest = 400 / 3,
        effective_rate = 8 / 3, chosen_salary_bank = Some (Some ''A'')\<rparr>)"
proof -
  let ?lp = "(\<lambda>cs A b bd.
       if cs = [- (3 / 100), - (25 / 1000), - (1 / 100)] then Success [50000, 10000, 0]
       else if cs = [- (3 / 100), 0, - (1 / 100)] then Success [50000, 0, 10000]
       else if cs = [0, - (25 / 1000), - (1 / 100)] then Success [0, 60000, 0]
       else NoSuccess) :: solver"
  let ?w = "[(''A'', \<lparr>tiers = [\<lparr>rate = 3 / 100, amount = 50000\<rparr>], requires_salary = True\<rparr>),
      (''B'', \<lparr>tiers = [\<lparr>rate = 25 / 1000, amount = 80000\<rparr>], requires_salary = True\<rparr>),
      (''C'', \<lparr>tiers = [\<lparr>rate = 1 / 100, amount = 100000\<rparr>], requires_salary = False\<rparr>)]"
  let ?r = "\<lparr>allocations =
        [(''A'', \<lparr>deposit = 50000, annual_interest = 1500, alloc_monthly_interest = 125,
            alloc_breakdown = [\<lparr>amount_in_tier = 50000, tier_rate = 3 / 100,
              tier_interest = 1500, monthly_interest = 125\<rparr>]\<rparr>),
         (''B'', \<lparr>deposit = 10000, annual_interest = 250, alloc_monthly_interest = 125 / 6,
            alloc_breakdown = [\<lparr>amount_in_tier = 10000, tier_rate = 1 / 40,
              tier_interest = 250, monthly_interest = 125 / 6\<rparr>]\<rparr>)],
        total_annual_interest = 1750, total_monthly_interest = 875 / 6,
        effective_rate = 35 / 12, chosen_salary_bank = None\<rparr>"
  have h1: "optimize_deposits ?lp ?w 60000 = Inr ?r" by (simp add: eval_defs)
  have h2: "salary_requiring ?w (map fst (allocations ?r)) = Inr [''A'', ''B'']" by simp
  have h3: "2 \<le> length [''A'', ''B'']" by simp
  have h4: "\<exists>k \<in> set [''A'', ''B'']. \<exists>r.
      optimize_deposits ?lp (modified_banks_data k ?w) 60000 = Inr r \<and>
      0 < total_annual_interest r" by (simp add: eval_defs)
  show ?thesis
    using salary_search_first_maximum [OF h1 h2 h3 h4]
    by (simp add: eval_defs)
qed

text \<open>
  C4. The claim asks for the candidate with the greatest total annual interest, a tie
  going to the earliest candidate. With two salary-requiring accounts of rate 0 that
  both receive allocation, both re-solves return a result with total annual interest
  0, a tie that the claim resolves to the first candidate; \<open>best_interest\<close> starts at
  0 and is replaced only by a strictly greater total, so \<open>best_result\<close> stays
  \<open>None\<close> and the function returns \<open>None\<close>, whether the solver fails (the greedy
  walk allocates 100 and 50) or succeeds with the deposits 50 and 100.
\<close>

theorem salary_search_tie_at_zero:
  "optimize_with_salary_constraint (\<lambda>cs A b bd. NoSuccess)
     [(''A'', \<lparr>tiers = [\<lparr>rate = 0, amount = 100\<rparr>], requires_salary = True\<rparr>),
      (''B'', \<lparr>tiers = [\<lparr>rate = 0, amount = 100\<rparr>], requires_salary = True\<rparr>)] 150 = Inr None \<and>
   (case optimize_deposits (\<lambda>cs A b bd. NoSuccess) (modified_banks_data ''A''
     [(''A'', \<lparr>tiers = [\<lparr>rate = 0, amount = 100\<rparr>], requires_salary = True\<rparr>),
      (''B'', \<lparr>tiers = [\<lparr>rate = 0, amount = 100\<rparr>], requires_salary = True\<rparr>)]) 150 of
      Inl e \<Rightarrow> False | Inr r \<Rightarrow> total_annual_interest r = 0) \<and>
   (case optimize_deposits (\<lambda>cs A b bd. NoSuccess) (modified_banks_data ''B''
     [(''A'', \<lparr>tiers = [\<lparr>rate = 0, amount = 100\<rparr>], requires_salary = True\<rparr>),
      (''B'', \<lparr>tiers = [\<lparr>rate = 0, amount = 100\<rparr>], requires_salary = True\<rparr>)]) 150 of
      Inl e \<Rightarrow> False | Inr r \<Rightarrow> total_annual_interest r = 0) \<and>
   optimize_with_salary_constraint (\<lambda>cs A b bd. Success [50, 100])
     [(''A'', \<lparr>tiers = [\<lparr>rate = 0, amount = 100\<rparr>], requires_salary = True\<rparr>),
      (''B'', \<lparr>tiers = [\<lparr>rate = 0, amount = 100\<rparr>], requires_salary = True\<rparr>)] 150 = Inr None"
  by (simp add: eval_defs)

section \<open>The greedy walk bounds every split\<close>

lemma allocation_loop_value:
  "snd (allocation_loop L T allocs tot) = tot + greedy_value T L"
proof (induction L arbitrary: T allocs tot)
  case Nil
  show ?case by simp
next
  case (Cons t L)
  show ?case
  proof (cases "T \<le> 0")
    case True
    then show ?thesis by simp
  next
    case False
    then show ?thesis using Cons.IH by (simp add: Let_def)
  qed
qed

lemma greedy_value_nonpos: "T \<le> 0 \<Longrightarrow> greedy_value T L = 0"
  by (cases L) simp_all

lemma greedy_value_step:
  "greedy_value T (t # ts) =
     (if T \<le> 0 then 0 else min T (amount t)) * rate t +
     greedy_value (T - (if T \<le> 0 then 0 else min T (amount t))) ts"
  by (simp add: greedy_value_nonpos)

lemma greedy_value_lipschitz:
  "\<forall>t \<in> set L. 0 \<le> amount t \<and> rate t \<le> R \<Longrightarrow> 0 \<le> R \<Longrightarrow> T1 \<le> T2 \<Longrightarrow>
   greedy_value T2 L - greedy_value T1 L \<le> (T2 - T1) * R"
proof (induction L arbitrary: T1 T2)
  case Nil
  then show ?case by simp
next
  case (Cons t L)
  let ?m1 = "if T1 \<le> 0 then 0 else min T1 (amount t)"
  let ?m2 = "if T2 \<le> 0 then 0 else min T2 (amount t)"
  have c: "0 \<le> amount t" and r: "rate t \<le> R" using Cons.prems(1) by simp_all
  have rest: "\<forall>t \<in> set L. 0 \<le> amount t \<and> rate t \<le> R" using Cons.prems(1) by simp
  have m: "?m1 \<le> ?m2" using Cons.prems(3) c by (auto simp: min_def)
  have d: "T1 - ?m1 \<le> T2 - ?m2" using Cons.prems(3) c by (auto simp: min_def)
  have ih: "greedy_value (T2 - ?m2) L - greedy_value (T1 - ?m1) L \<le>
      ((T2 - ?m2) - (T1 - ?m1)) * R"
    using Cons.IH [OF rest Cons.prems(2) d] .
  have "(?m2 - ?m1) * rate t \<le> (?m2 - ?m1) * R"
    using m r by (intro mult_left_mono) simp_all
  then have "greedy_value T2 (t # L) - greedy_value T1 (t # L) \<le>
      (?m2 - ?m1) * R + ((T2 - ?m2) - (T1 - ?m1)) * R"
    using ih unfolding greedy_value_step [of T1] greedy_value_step [of T2]
    by (simp add: algebra_simps)
  also have "\<dots> = (T2 - T1) * R" by (simp add: algebra_simps)
  finally show ?case .
qed

lemma knapsack_bound:
  "sorted (map (\<lambda>p. - rate (fst p)) ps) \<Longrightarrow>
   \<forall>p \<in> set ps. 0 \<le> snd p \<and> snd p \<le> amount (fst p) \<and> 0 \<le> rate (fst p) \<Longrightarrow>
   sum_list (map snd ps) \<le> T \<Longrightarrow>
   sum_list (map (\<lambda>p. snd p * rate (fst p)) ps) \<le> greedy_value T (map fst ps)"
proof (induction ps arbitrary: T)
  case Nil
  show ?case by simp
next
  case (Cons p ps)
  obtain t a where p: "p = (t, a)" by (cases p)
  let ?m = "if T \<le> 0 then 0 else min T (amount t)"
  have a0: "0 \<le> a" and ac: "a \<le> amount t" and r0: "0 \<le> rate t"
    using Cons.prems(2) p by simp_all
  have rest: "\<forall>p \<in> set ps. 0 \<le> snd p \<and> snd p \<le> amount (fst p) \<and> 0 \<le> rate (fst p)"
    using Cons.prems(2) by simp
  have srt: "sorted (map (\<lambda>p. - rate (fst p)) ps)" using Cons.prems(1) by simp
  have nn: "0 \<le> sum_list (map snd ps)" using rest by (intro sum_list_nonneg) auto
  have sm: "sum_list (map snd ps) \<le> T - a" using Cons.prems(3) p by simp
  have aT: "a \<le> T" using sm nn by simp
  have am: "a \<le> ?m" using a0 ac aT by (auto simp: min_def)
  have caps: "\<forall>u \<in> set (map fst ps). 0 \<le> amount u \<and> rate u \<le> rate t"
    using Cons.prems(1) rest p by (auto; force)
  have ih: "sum_list (map (\<lambda>p. snd p * rate (fst p)) ps) \<le> greedy_value (T - a) (map fst ps)"
    using Cons.IH [OF srt rest sm] .
  have mT: "T - ?m \<le> T - a" using am by simp
  have lip: "greedy_value (T - a) (map fst ps) - greedy_value (T - ?m) (map fst ps) \<le>
      ((T - a) - (T - ?m)) * rate t"
    using greedy_value_lipschitz [OF caps r0 mT] .
  have "sum_list (map (\<lambda>p. snd p * rate (fst p)) (p # ps)) \<le>
      a * rate t + greedy_value (T - ?m) (map fst ps) + (?m - a) * rate t"
    using ih lip by (simp add: p algebra_simps)
  also have "\<dots> = greedy_value T (map fst (p # ps))"
    unfolding p list.map fst_conv greedy_value_step [of T] by (simp add: algebra_simps)
  finally show ?case .
qed

lemma tier_fills_length [simp]: "length (tier_fills d ts) = length ts"
  by (induction ts arbitrary: d) auto

lemma sum_zero_products:
  "sum_list (map2 (\<lambda>a t. a * rate t) (replicate n (0::real)) ts) = 0"
proof (induction ts arbitrary: n)
  case Nil
  show ?case by simp
next
  case (Cons t ts)
  show ?case by (cases n) (simp_all add: Cons.IH)
qed

lemma interest_loop_fills:
  "total_interest (interest_loop ts 0 d []) =
   sum_list (map2 (\<lambda>a t. a * rate t) (tier_fills d ts) ts)"
proof (induction ts arbitrary: d)
  case Nil
  show ?case by simp
next
  case (Cons t ts)
  show ?case
  proof (cases "min d (amount t) \<le> 0")
    case True
    then show ?thesis
      using sum_zero_products [of "length ts" ts] by (simp add: Let_def)
  next
    case False
    then show ?thesis
      using Cons.IH [of "d - min d (amount t)"]
        interest_loop_total_shift [of ts "0 + min d (amount t) * rate t"]
      by (simp add: Let_def)
  qed
qed

lemma tier_fills_bounds:
  "\<forall>t \<in> set ts. 0 \<le> amount t \<Longrightarrow>
   list_all2 (\<lambda>a t. 0 \<le> a \<and> a \<le> amount t) (tier_fills d ts) ts"
proof (induction ts arbitrary: d)
  case Nil
  show ?case by simp
next
  case (Cons t ts)
  have z: "list_all2 (\<lambda>a t. 0 \<le> a \<and> a \<le> amount t) (replicate (length ts) 0) ts"
    using Cons.prems by (auto simp: list_all2_conv_all_nth)
  show ?case
  proof (cases "min d (amount t) \<le> 0")
    case True
    then show ?thesis using z Cons.prems by simp
  next
    case False
    then show ?thesis using Cons.IH Cons.prems by simp
  qed
qed

lemma tier_fills_sum: "0 \<le> d \<Longrightarrow> sum_list (tier_fills d ts) \<le> d"
proof (induction ts arbitrary: d)
  case Nil
  then show ?case by simp
next
  case (Cons t ts)
  show ?case
  proof (cases "min d (amount t) \<le> 0")
    case True
    then show ?thesis using Cons.prems by (simp add: sum_list_replicate)
  next
    case False
    have "0 \<le> d - min d (amount t)" by simp
    then have "sum_list (tier_fills (d - min d (amount t)) ts) \<le> d - min d (amount t)"
      by (rule Cons.IH)
    then show ?thesis using False by simp
  qed
qed

lemma placed_length [simp]: "length (placed d ts) = length ts"
  by (simp add: placed_def)

lemma placed_interest:
  "total_interest (calculate_bank_interest d ts) =
   sum_list (map2 (\<lambda>a t. a * rate t) (placed d ts) ts)"
  by (simp add: placed_def calculate_bank_interest_def interest_loop_fills sum_zero_products)

lemma placed_bounds:
  "\<forall>t \<in> set ts. 0 \<le> amount t \<Longrightarrow>
   list_all2 (\<lambda>a t. 0 \<le> a \<and> a \<le> amount t) (placed d ts) ts"
proof (cases "d \<le> 0")
  case True
  assume "\<forall>t \<in> set ts. 0 \<le> amount t"
  then show ?thesis using True by (auto simp: placed_def list_all2_conv_all_nth)
next
  case False
  assume "\<forall>t \<in> set ts. 0 \<le> amount t"
  then show ?thesis using False tier_fills_bounds [of ts d] by (simp add: placed_def)
qed

lemma placed_sum: "0 \<le> d \<Longrightarrow> sum_list (placed d ts) \<le> d"
  by (simp add: placed_def tier_fills_sum sum_list_replicate)

lemma placed_pairs_tiers:
  "length ds = length banks \<Longrightarrow> map fst (placed_pairs banks ds) = flatten_tiers banks"
proof (induction banks ds rule: placed_pairs.induct)
  case (3 n ts bs d ds)
  then show ?case by (simp add: flatten_tiers_def)
qed (simp_all add: flatten_tiers_def)

lemma zip_tag_products:
  "length as = length ts \<Longrightarrow>
   sum_list (map (\<lambda>p. snd p * rate (fst p))
     (zip (map (\<lambda>t. \<lparr>rate = rate t, amount = amount t, bank_name = n\<rparr>) ts) as)) =
   sum_list (map2 (\<lambda>a t. a * rate t) as ts)"
  by (induction as ts rule: list_induct2) simp_all

lemma zip_tag_amounts:
  "length as = length ts \<Longrightarrow>
   sum_list (map snd
     (zip (map (\<lambda>t. \<lparr>rate = rate t, amount = amount t, bank_name = n\<rparr>) ts) as)) =
   sum_list as"
  by (induction as ts rule: list_induct2) simp_all

lemma placed_pairs_interest:
  "length ds = length banks \<Longrightarrow>
   sum_list (map (\<lambda>p. snd p * rate (fst p)) (placed_pairs banks ds)) = split_interest banks ds"
proof (induction banks ds rule: placed_pairs.induct)
  case (3 n ts bs d ds)
  then show ?case
    by (simp add: split_interest_def zip_tag_products placed_interest)
qed (simp_all add: split_interest_def)

lemma placed_pairs_amounts:
  "length ds = length banks \<Longrightarrow> \<forall>d \<in> set ds. 0 \<le> d \<Longrightarrow>
   sum_list (map snd (placed_pairs banks ds)) \<le> sum_list ds"
proof (induction banks ds rule: placed_pairs.induct)
  case (3 n ts bs d ds)
  have "sum_list (placed d ts) \<le> d" using "3.prems"(2) by (simp add: placed_sum)
  moreover have "sum_list (map snd (placed_pairs bs ds)) \<le> sum_list ds"
    using "3.IH" "3.prems" by simp
  ultimately show ?case by (simp add: zip_tag_amounts)
qed simp_all

lemma placed_pairs_feasible:
  "\<forall>b \<in> set banks. \<forall>t \<in> set (snd b). 0 \<le> rate t \<and> 0 \<le> amount t \<Longrightarrow>
   p \<in> set (placed_pairs banks ds) \<Longrightarrow>
   0 \<le> snd p \<and> snd p \<le> amount (fst p) \<and> 0 \<le> rate (fst p)"
proof (induction banks ds rule: placed_pairs.induct)
  case (3 n ts bs d ds)
  have caps: "\<forall>t \<in> set ts. 0 \<le> amount t" using "3.prems"(1) by simp
  have la: "list_all2 (\<lambda>a t. 0 \<le> a \<and> a \<le> amount t) (placed d ts) ts"
    using placed_bounds [OF caps] .
  show ?case
  proof (cases "p \<in> set (placed_pairs bs ds)")
    case True
    then show ?thesis using "3.IH" "3.prems"(1) by simp
  next
    case False
    then have "p \<in> set (zip (map (\<lambda>t. \<lparr>rate = rate t, amount = amount t, bank_name = n\<rparr>) ts)
        (placed d ts))" using "3.prems"(2) by simp
    then obtain i where i: "i < length ts"
      "p = (\<lparr>rate = rate (ts ! i), amount = amount (ts ! i), bank_name = n\<rparr>, placed d ts ! i)"
      by (auto simp: set_zip)
    have "0 \<le> placed d ts ! i \<and> placed d ts ! i \<le> amount (ts ! i)"
      using la i(1) by (simp add: list_all2_conv_all_nth)
    moreover have "0 \<le> rate (ts ! i)" using "3.prems"(1) i(1) by simp
    ultimately show ?thesis using i(2) by simp
  qed
qed simp_all

lemma sum_list_insort_key:
  "sum_list (map g (insort_key f x xs)) = (g x :: real) + sum_list (map g xs)"
  by (induction xs) simp_all

lemma sum_list_sort_key:
  "sum_list (map g (sort_key f xs)) = (sum_list (map g xs) :: real)"
  by (induction xs) (simp_all add: sum_list_insort_key)

lemma map_fst_insort_key:
  "map fst (insort_key (\<lambda>p. h (fst p)) x xs) = insort_key h (fst x) (map fst xs)"
  by (induction xs) simp_all

lemma map_fst_sort_key:
  "map fst (sort_key (\<lambda>p. h (fst p)) xs) = sort_key h (map fst xs)"
  by (induction xs) (simp_all add: map_fst_insort_key)

lemma greedy_upper_bound:
  assumes nonneg: "\<forall>b \<in> set banks. \<forall>t \<in> set (snd b). 0 \<le> rate t \<and> 0 \<le> amount t"
    and len: "length ds = length banks"
    and ds0: "\<forall>d \<in> set ds. 0 \<le> d"
    and sm: "sum_list ds \<le> T"
  shows "split_interest banks ds \<le>
         greedy_value T (sort_key (\<lambda>x. - rate x) (flatten_tiers banks))"
proof -
  let ?ps = "sort_key (\<lambda>p. - rate (fst p)) (placed_pairs banks ds)"
  have srt: "sorted (map (\<lambda>p. - rate (fst p)) ?ps)" by (rule sorted_sort_key)
  have feas: "\<forall>p \<in> set ?ps. 0 \<le> snd p \<and> snd p \<le> amount (fst p) \<and> 0 \<le> rate (fst p)"
    using placed_pairs_feasible [OF nonneg] by simp
  have "sum_list (map snd ?ps) = sum_list (map snd (placed_pairs banks ds))"
    by (rule sum_list_sort_key)
  then have tot: "sum_list (map snd ?ps) \<le> T"
    using placed_pairs_amounts [OF len ds0] sm by simp
  have fst: "map fst ?ps = sort_key (\<lambda>x. - rate x) (flatten_tiers banks)"
    using map_fst_sort_key [of "\<lambda>x. - rate x" "placed_pairs banks ds"]
    by (simp add: placed_pairs_tiers [OF len])
  have "split_interest banks ds = sum_list (map (\<lambda>p. snd p * rate (fst p)) ?ps)"
    by (simp add: sum_list_sort_key placed_pairs_interest [OF len])
  also have "\<dots> \<le> greedy_value T (map fst ?ps)"
    using knapsack_bound [OF srt feas tot] .
  finally show ?thesis using fst by simp
qed

lemma simple_allocation_value:
  "T \<noteq> 0 \<Longrightarrow> \<exists>r. simple_allocation banks T = Inr r \<and>
     total_annual_interest r = greedy_value T (sort_key (\<lambda>x. - rate x) (flatten_tiers banks))"
proof -
  assume T: "T \<noteq> 0"
  let ?L = "sort_key (\<lambda>x. - rate x) (flatten_tiers banks)"
  obtain allocs tot where al: "allocation_loop ?L T [] 0 = (allocs, tot)"
    by (cases "allocation_loop ?L T [] 0")
  have "tot = greedy_value T ?L"
    using allocation_loop_value [of ?L T "[]" 0] al by simp
  then show ?thesis using T al
    by (simp add: simple_allocation_def py_div_def Let_def)
qed

section \<open>A split attains the value of the greedy walk\<close>

lemma greedy_fills_length [simp]: "length (greedy_fills T L) = length L"
  by (induction L arbitrary: T) auto

lemma greedy_fills_nonpos: "T \<le> 0 \<Longrightarrow> greedy_fills T L = replicate (length L) 0"
  by (cases L) simp_all

lemma zero_products:
  "sum_list (map (\<lambda>p. snd p * rate (fst p)) (zip L (replicate n (0::real)))) = 0"
proof (induction L arbitrary: n)
  case Nil
  show ?case by simp
next
  case (Cons t L)
  show ?case by (cases n) (simp_all add: Cons.IH)
qed

lemma greedy_value_fills:
  "greedy_value T L = sum_list (map (\<lambda>p. snd p * rate (fst p)) (zip L (greedy_fills T L)))"
proof (induction L arbitrary: T)
  case Nil
  show ?case by simp
next
  case (Cons t L)
  show ?case
  proof (cases "T \<le> 0")
    case True
    then show ?thesis using zero_products [of L "length L"] by simp
  next
    case False
    then show ?thesis using Cons.IH by simp
  qed
qed

lemma greedy_fills_sum: "0 \<le> T \<Longrightarrow> sum_list (greedy_fills T L) \<le> T"
proof (induction L arbitrary: T)
  case Nil
  then show ?case by simp
next
  case (Cons t L)
  show ?case
  proof (cases "T \<le> 0")
    case True
    then show ?thesis using Cons.prems by (simp add: sum_list_replicate)
  next
    case False
    have "0 \<le> T - min T (amount t)" by simp
    then have "sum_list (greedy_fills (T - min T (amount t)) L) \<le> T - min T (amount t)"
      by (rule Cons.IH)
    then show ?thesis using False by simp
  qed
qed

lemma zeros_all: "list_all (\<lambda>q. snd q = 0) (zip L (replicate n (0::real)))"
  by (auto simp: list_all_iff set_zip)

lemma stair_zeros:
  "\<forall>t \<in> set L. 0 \<le> amount t \<Longrightarrow> stair (zip L (replicate n (0::real)))"
proof (induction L arbitrary: n)
  case Nil
  show ?case by simp
next
  case (Cons t L)
  show ?case
  proof (cases n)
    case 0
    then show ?thesis by simp
  next
    case (Suc m)
    then show ?thesis using Cons.IH [of m] Cons.prems zeros_all [of L m] by simp
  qed
qed

lemma stair_greedy_fills:
  "\<forall>t \<in> set L. 0 \<le> amount t \<Longrightarrow> stair (zip L (greedy_fills T L))"
proof (induction L arbitrary: T)
  case Nil
  show ?case by simp
next
  case (Cons t L)
  have c: "0 \<le> amount t" and rest: "\<forall>t \<in> set L. 0 \<le> amount t" using Cons.prems by simp_all
  show ?case
  proof (cases "T \<le> 0")
    case True
    then show ?thesis using stair_zeros [OF Cons.prems, of "Suc (length L)"] by simp
  next
    case False
    have ih: "stair (zip L (greedy_fills (T - min T (amount t)) L))"
      using Cons.IH [OF rest] .
    have "min T (amount t) = amount t \<or>
        list_all (\<lambda>q. snd q = 0) (zip L (greedy_fills (T - min T (amount t)) L))"
    proof (cases "amount t \<le> T")
      case True
      then show ?thesis by simp
    next
      case False
      then have "T - min T (amount t) \<le> 0" by simp
      then have "greedy_fills (T - min T (amount t)) L = replicate (length L) 0"
        by (rule greedy_fills_nonpos)
      then show ?thesis using zeros_all [of L "length L"] by simp
    qed
    then show ?thesis using False c ih by simp
  qed
qed

lemma stair_filter: "stair ps \<Longrightarrow> stair (filter P ps)"
proof (induction ps)
  case Nil
  show ?case by simp
next
  case (Cons p ps)
  have "list_all (\<lambda>q. snd q = 0) ps \<Longrightarrow> list_all (\<lambda>q. snd q = 0) (filter P ps)"
    by (simp add: list_all_iff)
  then show ?case using Cons by auto
qed

lemma stair_nonneg: "stair ps \<Longrightarrow> \<forall>p \<in> set ps. 0 \<le> snd p"
  by (induction ps) auto

lemma interest_loop_empty_purse: "total_interest (interest_loop ts 0 0 []) = 0"
  by (cases ts) (simp_all add: Let_def)

lemma all_zero_sums:
  "list_all (\<lambda>q. snd q = (0::real)) ps \<Longrightarrow>
   sum_list (map snd ps) = 0 \<and> sum_list (map (\<lambda>p. snd p * rate (fst p)) ps) = 0"
  by (induction ps) simp_all

lemma stair_interest_loop:
  fixes ps :: "(tier \<times> real) list"
  shows "stair ps \<Longrightarrow> \<forall>p \<in> set ps. 0 < amount (fst p) \<Longrightarrow>
   total_interest (interest_loop (map fst ps) 0 (sum_list (map snd ps)) []) =
   sum_list (map (\<lambda>p. snd p * rate (fst p)) ps)"
proof (induction ps)
  case Nil
  show ?case by simp
next
  case (Cons p ps)
  obtain t a where p: "p = (t, a)" by (cases p)
  let ?S = "sum_list (map snd ps)"
  have a0: "0 \<le> a" and ac: "a \<le> amount t" and st: "stair ps"
    and alt: "a = amount t \<or> list_all (\<lambda>q. snd q = 0) ps"
    using Cons.prems(1) p by simp_all
  have c: "0 < amount t" using Cons.prems(2) p by simp
  have rest: "\<forall>p \<in> set ps. 0 < amount (fst p)" using Cons.prems(2) by simp
  have S0: "0 \<le> ?S" using stair_nonneg [OF st] by (intro sum_list_nonneg) auto
  have ih: "total_interest (interest_loop (map fst ps) 0 ?S []) =
      sum_list (map (\<lambda>p. snd p * rate (fst p)) ps)"
    using Cons.IH [OF st rest] .
  show ?case
  proof (cases "a = amount t")
    case True
    have m: "min (a + ?S) (amount t) = amount t" using True S0 by simp
    have "total_interest (interest_loop (t # map fst ps) 0 (a + ?S) []) =
        amount t * rate t + total_interest (interest_loop (map fst ps) 0 ?S [])"
      using c m True
        interest_loop_total_shift [of "map fst ps" "0 + amount t * rate t"]
      by (simp add: Let_def)
    then show ?thesis using ih True by (simp add: p)
  next
    case False
    then have z: "list_all (\<lambda>q. snd q = 0) ps" using alt by simp
    have S: "?S = 0" and P: "sum_list (map (\<lambda>p. snd p * rate (fst p)) ps) = 0"
      using all_zero_sums [OF z] by simp_all
    show ?thesis
    proof (cases "a = 0")
      case True
      then show ?thesis using S P c by (simp add: p Let_def)
    next
      case False
      then have apos: "0 < a" using a0 by simp
      have m: "min a (amount t) = a" using ac by simp
      have "total_interest (interest_loop (t # map fst ps) 0 a []) =
          a * rate t + total_interest (interest_loop (map fst ps) 0 0 [])"
        using apos m interest_loop_total_shift [of "map fst ps" "0 + a * rate t"]
        by (simp add: Let_def)
      then show ?thesis using S P by (simp add: p interest_loop_empty_purse)
    qed
  qed
qed

lemma stair_calculate:
  fixes ps :: "(tier \<times> real) list"
  assumes "stair ps" and "\<forall>p \<in> set ps. 0 < amount (fst p)"
  shows "total_interest (calculate_bank_interest (sum_list (map snd ps)) (map fst ps)) =
         sum_list (map (\<lambda>p. snd p * rate (fst p)) ps)"
proof (cases "sum_list (map snd ps) \<le> 0")
  case True
  have nn: "\<forall>p \<in> set ps. 0 \<le> snd p" using stair_nonneg [OF assms(1)] .
  have "0 \<le> sum_list (map snd ps)" using nn by (intro sum_list_nonneg) auto
  then have z: "sum_list (map snd ps) = 0" using True by simp
  have "\<forall>x \<in> set (map snd ps). x = 0"
    using nn z sum_list_nonneg_eq_0_iff [of "map snd ps"] by auto
  then have "list_all (\<lambda>q. snd q = 0) ps" by (simp add: list_all_iff)
  then have "sum_list (map (\<lambda>p. snd p * rate (fst p)) ps) = 0"
    using all_zero_sums by blast
  then show ?thesis using True by (simp add: calculate_bank_interest_def)
next
  case False
  then show ?thesis
    using stair_interest_loop [OF assms] by (simp add: calculate_bank_interest_def)
qed

lemma flatten_Cons:
  "flatten_tiers ((n, ts) # bs) =
   map (\<lambda>t. \<lparr>rate = rate t, amount = amount t, bank_name = n\<rparr>) ts @ flatten_tiers bs"
  by (simp add: flatten_tiers_def)

lemma flatten_names: "x \<in> set (flatten_tiers banks) \<Longrightarrow> bank_name x \<in> fst ` set banks"
  by (induction banks) (auto simp: flatten_tiers_def)

lemma filter_flatten_absent:
  "n \<notin> fst ` set banks \<Longrightarrow> filter (\<lambda>x. bank_name x = n) (flatten_tiers banks) = []"
  using flatten_names by (auto simp: filter_empty_conv)

lemma filter_tagged:
  "filter (\<lambda>x. bank_name x = n)
     (map (\<lambda>t. \<lparr>rate = rate t, amount = amount t, bank_name = m\<rparr>) ts) =
   (if m = n then map (\<lambda>t. \<lparr>rate = rate t, amount = amount t, bank_name = m\<rparr>) ts else [])"
  by (induction ts) auto

lemma filter_flatten:
  "distinct (map fst banks) \<Longrightarrow> (n, ts) \<in> set banks \<Longrightarrow>
   filter (\<lambda>x. bank_name x = n) (flatten_tiers banks) =
   map (\<lambda>t. \<lparr>rate = rate t, amount = amount t, bank_name = n\<rparr>) ts"
proof (induction banks)
  case Nil
  then show ?case by simp
next
  case (Cons b banks)
  obtain m us where b: "b = (m, us)" by (cases b)
  show ?case
  proof (cases "(n, ts) = b")
    case True
    have "fst b \<notin> set (map fst banks)" using Cons.prems(1) by simp
    moreover have "fst b = n" using True by auto
    ultimately have "n \<notin> fst ` set banks" by simp
    then have "filter (\<lambda>x. bank_name x = n) (flatten_tiers banks) = []"
      by (rule filter_flatten_absent)
    moreover have "m = n" "us = ts" using True b by simp_all
    ultimately show ?thesis
      unfolding b by (simp add: flatten_Cons filter_tagged)
  next
    case False
    then have mem: "(n, ts) \<in> set banks" using Cons.prems(2) by simp
    then have "m \<noteq> n" using Cons.prems(1) b by (auto simp: image_iff)
    then show ?thesis
      using Cons.IH mem Cons.prems(1) b by (simp add: flatten_Cons filter_tagged)
  qed
qed

lemma filter_sorted_flatten:
  assumes "distinct (map fst banks)" and "(n, ts) \<in> set banks"
    and "sorted (map (\<lambda>t. - rate t) ts)"
  shows "filter (\<lambda>x. bank_name x = n) (sort_key (\<lambda>x. - rate x) (flatten_tiers banks)) =
         map (\<lambda>t. \<lparr>rate = rate t, amount = amount t, bank_name = n\<rparr>) ts"
proof -
  let ?tag = "\<lambda>t. \<lparr>rate = rate t, amount = amount t, bank_name = n\<rparr>"
  have "map (\<lambda>x. - rate x) (map ?tag ts) = map (\<lambda>t. - rate t) ts" by simp
  then have "sorted (map (\<lambda>x. - rate x) (map ?tag ts))" using assms(3) by (simp add: comp_def)
  then have "sort_key (\<lambda>x. - rate x) (map ?tag ts) = map ?tag ts"
    by (rule sort_key_id_if_sorted)
  then show ?thesis
    using filter_flatten [OF assms(1,2)] by (simp add: filter_sort)
qed

lemma filter_zip_fst:
  "length fs = length L \<Longrightarrow>
   map fst (filter (\<lambda>p. P (fst p)) (zip L fs)) = filter P L"
  by (induction fs L rule: list_induct2) simp_all

lemma pick_one:
  "distinct ns \<Longrightarrow> k \<in> set ns \<Longrightarrow>
   sum_list (map (\<lambda>n. if k = n then v else 0) ns) = (v :: real)"
proof (induction ns)
  case Nil
  then show ?case by simp
next
  case (Cons m ns)
  show ?case
  proof (cases "k = m")
    case True
    then have "k \<notin> set ns" using Cons.prems(1) by simp
    then have "sum_list (map (\<lambda>n. if k = n then v else 0) ns) = 0"
      by (induction ns) auto
    then show ?thesis using True by simp
  next
    case False
    then show ?thesis using Cons by simp
  qed
qed

lemma sum_by_key:
  "distinct ns \<Longrightarrow> \<forall>x \<in> set xs. key x \<in> set ns \<Longrightarrow>
   sum_list (map (\<lambda>n. sum_list (map g (filter (\<lambda>x. key x = n) xs))) ns) =
   (sum_list (map g xs) :: real)"
proof (induction xs)
  case Nil
  show ?case by simp
next
  case (Cons x xs)
  have k: "key x \<in> set ns" and rest: "\<forall>x \<in> set xs. key x \<in> set ns"
    using Cons.prems(2) by simp_all
  have "sum_list (map (\<lambda>n. sum_list (map g (filter (\<lambda>y. key y = n) (x # xs)))) ns) =
      sum_list (map (\<lambda>n. (if key x = n then g x else 0) +
        sum_list (map g (filter (\<lambda>y. key y = n) xs))) ns)"
    by (intro arg_cong [where f = sum_list] map_cong) auto
  also have "\<dots> = sum_list (map (\<lambda>n. if key x = n then g x else 0) ns) +
      sum_list (map (\<lambda>n. sum_list (map g (filter (\<lambda>y. key y = n) xs))) ns)"
    by (simp add: sum_list_addf)
  also have "\<dots> = g x + sum_list (map g xs)"
    using pick_one [OF Cons.prems(1) k] Cons.IH [OF Cons.prems(1) rest] by simp
  finally show ?case by simp
qed

lemma stair_untag:
  "stair (map (\<lambda>p. (\<lparr>rate = rate (fst p), amount = amount (fst p)\<rparr>, snd p)) ps) = stair ps"
  by (induction ps) (simp_all add: list_all_iff)

lemma tier_eta: "\<lparr>rate = rate x, amount = amount x\<rparr> = (x :: tier)"
  by (cases x) simp

lemma map2_same: "map2 f xs (map g xs) = map (\<lambda>x. f x (g x)) xs"
  by (induction xs) simp_all

lemma staircase_account:
  fixes it :: "(flat_tier \<times> real) list"
  assumes st: "stair it"
    and fsts: "map fst it = map (\<lambda>t. \<lparr>rate = rate t, amount = amount t, bank_name = n\<rparr>) ts"
    and pos: "\<forall>t \<in> set ts. 0 < amount t"
  shows "total_interest (calculate_bank_interest (sum_list (map snd it)) ts) =
         sum_list (map (\<lambda>p. snd p * rate (fst p)) it)"
proof -
  let ?tp = "map (\<lambda>p. (\<lparr>rate = rate (fst p), amount = amount (fst p)\<rparr>, snd p)) it"
  have "map fst ?tp = map (\<lambda>x. \<lparr>rate = rate x, amount = amount x\<rparr>) (map fst it)"
    by (simp add: comp_def)
  also have "\<dots> = ts" unfolding fsts by (simp add: comp_def tier_eta)
  finally have tp_fst: "map fst ?tp = ts" .
  have tp_stair: "stair ?tp" using st by (simp only: stair_untag)
  have "fst ` set ?tp = set ts" using arg_cong [OF tp_fst, of set] by (simp only: set_map)
  then have tp_pos: "\<forall>p \<in> set ?tp. 0 < amount (fst p)" using pos by blast
  have s1: "sum_list (map snd ?tp) = sum_list (map snd it)" by (simp add: comp_def)
  have s2: "sum_list (map (\<lambda>p. snd p * rate (fst p)) ?tp) =
      sum_list (map (\<lambda>p. snd p * rate (fst p)) it)"
    by (simp add: comp_def)
  show ?thesis
    using stair_calculate [OF tp_stair tp_pos] unfolding tp_fst s1 s2 .
qed

lemma greedy_attained:
  assumes dist: "distinct (map fst banks)"
    and shape: "\<forall>b \<in> set banks. sorted (map (\<lambda>t. - rate t) (snd b)) \<and>
                 (\<forall>t \<in> set (snd b). 0 < amount t)"
    and T: "0 \<le> T"
  shows "\<exists>ds. length ds = length banks \<and> (\<forall>d \<in> set ds. 0 \<le> d) \<and> sum_list ds \<le> T \<and>
           split_interest banks ds =
           greedy_value T (sort_key (\<lambda>x. - rate x) (flatten_tiers banks))"
proof -
  let ?L = "sort_key (\<lambda>x. - rate x) (flatten_tiers banks)"
  let ?ps = "zip ?L (greedy_fills T ?L)"
  let ?it = "\<lambda>n. filter (\<lambda>p. bank_name (fst p) = n) ?ps"
  let ?dep = "\<lambda>n. sum_list (map snd (?it n))"
  let ?prod = "\<lambda>p :: flat_tier \<times> real. snd p * rate (fst p)"
  let ?ds = "map (\<lambda>b. ?dep (fst b)) banks"
  have caps: "\<forall>t \<in> set ?L. 0 \<le> amount t"
  proof
    fix t assume "t \<in> set ?L"
    then have "t \<in> set (flatten_tiers banks)" by simp
    then obtain b u where "b \<in> set banks" "u \<in> set (snd b)" "amount t = amount u"
      by (auto simp: flatten_tiers_def)
    then show "0 \<le> amount t" using shape by force
  qed
  have st: "stair ?ps" using stair_greedy_fills [OF caps] .
  have names: "\<forall>p \<in> set ?ps. bank_name (fst p) \<in> set (map fst banks)"
  proof
    fix p assume "p \<in> set ?ps"
    then have "(fst p, snd p) \<in> set ?ps" by simp
    then have "fst p \<in> set ?L" by (rule set_zip_leftD)
    then have "fst p \<in> set (flatten_tiers banks)" by simp
    then show "bank_name (fst p) \<in> set (map fst banks)" using flatten_names by auto
  qed
  have per_bank: "total_interest (calculate_bank_interest (?dep (fst b)) (snd b)) =
      sum_list (map ?prod (?it (fst b)))" if b: "b \<in> set banks" for b
  proof -
    obtain n ts where nt: "b = (n, ts)" by (cases b)
    have srt: "sorted (map (\<lambda>t. - rate t) ts)" and pos: "\<forall>t \<in> set ts. 0 < amount t"
      using shape b nt by auto
    have "map fst (?it n) = filter (\<lambda>x. bank_name x = n) ?L"
      by (rule filter_zip_fst) simp
    also have "\<dots> = map (\<lambda>t. \<lparr>rate = rate t, amount = amount t, bank_name = n\<rparr>) ts"
      using filter_sorted_flatten [OF dist _ srt] b nt by simp
    finally have fsts: "map fst (?it n) =
        map (\<lambda>t. \<lparr>rate = rate t, amount = amount t, bank_name = n\<rparr>) ts" .
    have "stair (?it n)" using st by (rule stair_filter)
    from staircase_account [OF this fsts pos] show ?thesis unfolding nt by simp
  qed
  have "split_interest banks ?ds =
      sum_list (map (\<lambda>b. total_interest (calculate_bank_interest (?dep (fst b)) (snd b))) banks)"
    unfolding split_interest_def map2_same
    by (intro arg_cong [where f = sum_list] map_cong) auto
  also have "\<dots> = sum_list (map (\<lambda>b. sum_list (map ?prod (?it (fst b)))) banks)"
    using per_bank by (intro arg_cong [where f = sum_list] map_cong) auto
  also have "\<dots> = sum_list (map (\<lambda>n. sum_list (map ?prod (?it n))) (map fst banks))"
    by (simp add: comp_def)
  also have "\<dots> = sum_list (map ?prod ?ps)"
    using sum_by_key [OF dist names, of ?prod] by simp
  also have "\<dots> = greedy_value T ?L" by (simp add: greedy_value_fills)
  finally have val: "split_interest banks ?ds = greedy_value T ?L" .
  have "sum_list ?ds = sum_list (map (\<lambda>n. sum_list (map snd (?it n))) (map fst banks))"
    by (simp add: comp_def)
  also have "\<dots> = sum_list (map snd ?ps)"
    using sum_by_key [OF dist names, of snd] by simp
  also have "\<dots> = sum_list (greedy_fills T ?L)" by simp
  also have "\<dots> \<le> T" using greedy_fills_sum [OF T] .
  finally have tot: "sum_list ?ds \<le> T" .
  have nn: "\<forall>d \<in> set ?ds. 0 \<le> d"
  proof
    fix d assume "d \<in> set ?ds"
    then obtain b :: "string \<times> tier list" where "d = ?dep (fst b)" by auto
    moreover have "\<forall>p \<in> set (?it (fst b)). 0 \<le> snd p"
      using stair_nonneg [OF stair_filter [OF st]] .
    ultimately show "0 \<le> d" by (auto intro!: sum_list_nonneg)
  qed
  have "length ?ds = length banks" by simp
  then show ?thesis using nn tot val by blast
qed

lemma total_interest_mono:
  "\<forall>t \<in> set ts. 0 \<le> rate t \<Longrightarrow> d1 \<le> d2 \<Longrightarrow>
   total_interest (calculate_bank_interest d1 ts) \<le>
   total_interest (calculate_bank_interest d2 ts)"
proof (cases "d1 \<le> 0")
  case True
  assume rs: "\<forall>t \<in> set ts. 0 \<le> rate t"
  show ?thesis
    using True interest_loop_nonneg [OF rs, of d2] by (simp add: calculate_bank_interest_def)
next
  case False
  assume rs: "\<forall>t \<in> set ts. 0 \<le> rate t" and le: "d1 \<le> d2"
  show ?thesis
    using False le interest_loop_mono [OF rs le] by (simp add: calculate_bank_interest_def)
qed

lemma split_top_up:
  assumes ne: "banks \<noteq> []"
    and rates: "\<forall>b \<in> set banks. \<forall>t \<in> set (snd b). 0 \<le> rate t"
    and len: "length ds = length banks"
    and nn: "\<forall>d \<in> set ds. 0 \<le> d"
    and sm: "sum_list ds \<le> T"
  shows "\<exists>ds'. length ds' = length banks \<and> (\<forall>d \<in> set ds'. 0 \<le> d) \<and> sum_list ds' = T \<and>
           split_interest banks ds \<le> split_interest banks ds'"
proof -
  obtain b bs where banks: "banks = b # bs" using ne by (cases banks) auto
  obtain d ds0 where ds: "ds = d # ds0" using len banks by (cases ds) auto
  obtain n ts where b: "b = (n, ts)" by (cases b)
  let ?d' = "d + (T - sum_list ds)"
  have le: "d \<le> ?d'" using sm by simp
  have rs: "\<forall>t \<in> set ts. 0 \<le> rate t" using rates banks b by simp
  have m: "total_interest (calculate_bank_interest d ts) \<le>
      total_interest (calculate_bank_interest ?d' ts)"
    using total_interest_mono [OF rs le] .
  have "length (?d' # ds0) = length banks" using len ds by simp
  moreover have "\<forall>x \<in> set (?d' # ds0). 0 \<le> x" using nn ds le by auto
  moreover have "sum_list (?d' # ds0) = T" using ds by simp
  moreover have "split_interest banks ds \<le> split_interest banks (?d' # ds0)"
    using m by (simp add: split_interest_def banks ds b)
  ultimately show ?thesis by blast
qed

section \<open>Properties of simple\_allocation\<close>

text \<open>
  Against C2 as stated. An account whose second tier pays more than its first: the greedy
  walk takes the 5 percent tier first and reports 5, while the only split of 100 over
  the single account earns 1 under \<open>calculate_bank_interest\<close>, which fills the
  1 percent tier first. An account whose first tier has capacity 0: the greedy walk
  passes it and reports 3, while \<open>calculate_bank_interest\<close> stops at it and the only
  split earns 0.
\<close>

theorem greedy_overstates_rising_tiers:
  "simple_allocation [(''A'', [\<lparr>rate = 1 / 100, amount = 100\<rparr>, \<lparr>rate = 5 / 100, amount = 100\<rparr>])] 100 =
     Inr \<lparr>allocations =
          [(''A'', \<lparr>deposit = 100, annual_interest = 5, alloc_monthly_interest = 5 / 12,
             alloc_breakdown = [\<lparr>amount_in_tier = 100, tier_rate = 5 / 100,
               tier_interest = 5, monthly_interest = 5 / 12\<rparr>]\<rparr>)],
        total_annual_interest = 5, total_monthly_interest = 5 / 12,
        effective_rate = 5, chosen_salary_bank = None\<rparr> \<and>
   split_interest [(''A'', [\<lparr>rate = 1 / 100, amount = 100\<rparr>, \<lparr>rate = 5 / 100, amount = 100\<rparr>])] [100] = 1 \<and>
   (case simple_allocation
       [(''A'', [\<lparr>rate = 5 / 100, amount = 0\<rparr>, \<lparr>rate = 3 / 100, amount = 100\<rparr>])] 100 of
      Inl e \<Rightarrow> False | Inr r \<Rightarrow> total_annual_interest r = 3) \<and>
   split_interest [(''A'', [\<lparr>rate = 5 / 100, amount = 0\<rparr>, \<lparr>rate = 3 / 100, amount = 100\<rparr>])] [100] = 0"
  by (simp add: eval_defs split_interest_def)

text \<open>
  C2 (as amended). For accounts with distinct names, at least one of them, whose own
  tiers are listed with non-increasing rates, non-negative rates and positive
  capacities, and for a positive \<open>total_investment\<close>, \<open>simple_allocation\<close> returns
  a result whose total annual interest is the true maximum over the splits of
  \<open>total_investment\<close> into non-negative deposits, one per account, each evaluated by
  \<open>calculate_bank_interest\<close>: no split earns more, and some split earns exactly it.
\<close>

theorem greedy_attains_maximum:
  assumes names: "distinct (map fst banks)" and ne: "banks \<noteq> []"
    and shape: "\<forall>b \<in> set banks. sorted (map (\<lambda>t. - rate t) (snd b)) \<and>
                  (\<forall>t \<in> set (snd b). 0 \<le> rate t \<and> 0 < amount t)"
    and T: "0 < T"
  shows "\<exists>r. simple_allocation banks T = Inr r \<and>
           (\<forall>ds. length ds = length banks \<and> (\<forall>d \<in> set ds. 0 \<le> d) \<and> sum_list ds = T \<longrightarrow>
                 split_interest banks ds \<le> total_annual_interest r) \<and>
           (\<exists>ds. length ds = length banks \<and> (\<forall>d \<in> set ds. 0 \<le> d) \<and> sum_list ds = T \<and>
                 split_interest banks ds = total_annual_interest r)"
proof -
  let ?G = "greedy_value T (sort_key (\<lambda>x. - rate x) (flatten_tiers banks))"
  have T0: "T \<noteq> 0" and T1: "0 \<le> T" using T by simp_all
  obtain r where r: "simple_allocation banks T = Inr r" "total_annual_interest r = ?G"
    using simple_allocation_value [OF T0] by blast
  have nonneg: "\<forall>b \<in> set banks. \<forall>t \<in> set (snd b). 0 \<le> rate t \<and> 0 \<le> amount t"
    using shape by force
  have rates: "\<forall>b \<in> set banks. \<forall>t \<in> set (snd b). 0 \<le> rate t" using shape by simp
  have shape': "\<forall>b \<in> set banks. sorted (map (\<lambda>t. - rate t) (snd b)) \<and>
      (\<forall>t \<in> set (snd b). 0 < amount t)" using shape by simp
  have upper: "split_interest banks ds \<le> ?G"
    if "length ds = length banks" "\<forall>d \<in> set ds. 0 \<le> d" "sum_list ds \<le> T" for ds
    using greedy_upper_bound [OF nonneg that] .
  obtain ds where ds: "length ds = length banks" "\<forall>d \<in> set ds. 0 \<le> d" "sum_list ds \<le> T"
    "split_interest banks ds = ?G"
    using greedy_attained [OF names shape' T1] by blast
  obtain ds' where ds': "length ds' = length banks" "\<forall>d \<in> set ds'. 0 \<le> d" "sum_list ds' = T"
    "split_interest banks ds \<le> split_interest banks ds'"
    using split_top_up [OF ne rates ds(1,2,3)] by blast
  have "split_interest banks ds' \<le> ?G" using upper [OF ds'(1,2)] ds'(3) by simp
  then have eq: "split_interest banks ds' = ?G" using ds(4) ds'(4) by simp
  have bound: "\<forall>ds. length ds = length banks \<and> (\<forall>d \<in> set ds. 0 \<le> d) \<and> sum_list ds = T \<longrightarrow>
      split_interest banks ds \<le> total_annual_interest r"
    using upper r(2) by simp
  show ?thesis using r bound ds'(1,2,3) eq by metis
qed

theorem greedy_attains_maximum_witness:
  "simple_allocation
     [(''A'', [\<lparr>rate = 5 / 100, amount = 100\<rparr>, \<lparr>rate = 1 / 100, amount = 100\<rparr>]),
      (''B'', [\<lparr>rate = 3 / 100, amount = 100\<rparr>])] 150 =
     Inr \<lparr>allocations =
          [(''A'', \<lparr>deposit = 100, annual_interest = 5, alloc_monthly_interest = 5 / 12,
             alloc_breakdown = [\<lparr>amount_in_tier = 100, tier_rate = 5 / 100,
               tier_interest = 5, monthly_interest = 5 / 12\<rparr>]\<rparr>),
           (''B'', \<lparr>deposit = 50, annual_interest = 3 / 2, alloc_monthly_interest = 1 / 8,
             alloc_breakdown = [\<lparr>amount_in_tier = 50, tier_rate = 3 / 100,
               tier_interest = 3 / 2, monthly_interest = 1 / 8\<rparr>]\<rparr>)],
        total_annual_interest = 13 / 2, total_monthly_interest = 13 / 24,
        effective_rate = 13 / 3, chosen_salary_bank = None\<rparr> \<and>
   split_interest
     [(''A'', [\<lparr>rate = 5 / 100, amount = 100\<rparr>, \<lparr>rate = 1 / 100, amount = 100\<rparr>]),
      (''B'', [\<lparr>rate = 3 / 100, amount = 100\<rparr>])] [100, 50] = 13 / 2 \<and>
   split_interest
     [(''A'', [\<lparr>rate = 5 / 100, amount = 100\<rparr>, \<lparr>rate = 1 / 100, amount = 100\<rparr>]),
      (''B'', [\<lparr>rate = 3 / 100, amount = 100\<rparr>])] [120, 30] = 61 / 10"
proof -
  let ?w = "[(''A'', [\<lparr>rate = 5 / 100, amount = 100\<rparr>, \<lparr>rate = 1 / 100, amount = 100\<rparr>]),
      (''B'', [\<lparr>rate = 3 / 100, amount = 100\<rparr>])]"
  have h1: "distinct (map fst ?w)" by simp
  have h2: "?w \<noteq> []" by simp
  have h3: "\<forall>b \<in> set ?w. sorted (map (\<lambda>t. - rate t) (snd b)) \<and>
      (\<forall>t \<in> set (snd b). (0::real) \<le> rate t \<and> 0 < amount t)" by simp
  have h4: "(0::real) < 150" by simp
  show ?thesis
    using greedy_attains_maximum [OF h1 h2 h3 h4]
    by (simp add: eval_defs split_interest_def)
qed

end
